theory Spec2Isabelle
  imports Main "HOL-Library.Sublist"
begin

section \<open>Strings\<close>

text \<open>
  JavaScript strings are sequences of code units; they are modelled as \<^typ>\<open>string\<close>.
  \<open>indexOf\<close> returns the offset of the leftmost occurrence (JavaScript returns -1 when
  there is none, here \<open>None\<close>); \<open>includesStr\<close> is the substring test \<open>includes\<close>.
\<close>

fun indexOf :: "string \<Rightarrow> string \<Rightarrow> nat option" where
  "indexOf [] pat = (if pat = [] then Some 0 else None)"
| "indexOf (c # cs) pat =
     (if prefix pat (c # cs) then Some 0 else map_option Suc (indexOf cs pat))"

definition includesStr :: "string \<Rightarrow> string \<Rightarrow> bool" where
  "includesStr s pat \<longleftrightarrow> indexOf s pat \<noteq> None"

text \<open>\<open>s.substring(a, b)\<close>: both indices are clamped to the length and swapped when
  \<open>a > b\<close>; \<open>s.substring(a)\<close> runs to the end of the string.\<close>

definition substring :: "string \<Rightarrow> nat \<Rightarrow> nat \<Rightarrow> string" where
  "substring s a b =
     (let a' = min a (length s); b' = min b (length s)
      in take (max a' b' - min a' b') (drop (min a' b') s))"

definition substringFrom :: "string \<Rightarrow> nat \<Rightarrow> string" where
  "substringFrom s a = drop (min a (length s)) s"

text \<open>The white space and line terminator code units below 256 that \<open>trim\<close> strips.\<close>

definition isWhiteSpace :: "char \<Rightarrow> bool" where
  "isWhiteSpace c \<longleftrightarrow>
     c \<in> set [CHR 0x09, CHR 0x0A, CHR 0x0B, CHR 0x0C, CHR 0x0D, CHR 0x20, CHR 0xA0]"

definition trim :: "string \<Rightarrow> string" where
  "trim s = rev (dropWhile isWhiteSpace (rev (dropWhile isWhiteSpace s)))"


text \<open>ASCII letters, digits and white space, the lower-case form of a code unit, and
  the pieces of a string between separators.\<close>

definition isLetter :: "char \<Rightarrow> bool" where
  "isLetter c \<longleftrightarrow> c \<in> set ''abcdefghijklmnopqrstuvwxyzABCDEFGHIJKLMNOPQRSTUVWXYZ''"

definition isDigit :: "char \<Rightarrow> bool" where
  "isDigit c \<longleftrightarrow> c \<in> set ''0123456789''"

definition isSpace :: "char \<Rightarrow> bool" where
  "isSpace c \<longleftrightarrow> c \<in> set [CHR 0x09, CHR 0x0A, CHR 0x0C, CHR 0x0D, CHR 0x20]"

definition toLower :: "char \<Rightarrow> char" where
  "toLower c =
     (case map_of (zip ''ABCDEFGHIJKLMNOPQRSTUVWXYZ'' ''abcdefghijklmnopqrstuvwxyz'') c of
        None \<Rightarrow> c | Some l \<Rightarrow> l)"

fun splitOn :: "(char \<Rightarrow> bool) \<Rightarrow> string \<Rightarrow> string list" where
  "splitOn sep [] = [[]]"
| "splitOn sep (c # cs) =
     (if sep c then [] # splitOn sep cs
      else (case splitOn sep cs of [] \<Rightarrow> [[c]] | w # ws \<Rightarrow> (c # w) # ws))"


section \<open>The document tree\<close>

text \<open>
  A node is a text node or an element with its attributes and children. Of an element
  the model keeps the tag, the class, the id and the inline style declarations. The
  document is the tree below \<open>document.body\<close>. A node is addressed by the child indices
  leading to it from the root.
\<close>

record attrs =
  tagName :: string
  className :: string
  ident :: string
  style :: "(string \<times> string) list"

datatype node = TextNode string | Element attrs "node list"

type_synonym path = "nat list"

fun textContent :: "node \<Rightarrow> string" where
  "textContent (TextNode t) = t"
| "textContent (Element a cs) = concat (map textContent cs)"

text \<open>The text nodes below a node in document order, each with its path: what a
  \<open>TreeWalker\<close> with \<open>SHOW_TEXT\<close> yields from \<open>nextNode()\<close>. The root itself is never
  yielded.\<close>

fun walk :: "node \<Rightarrow> (path \<times> string) list"
  and walks :: "nat \<Rightarrow> node list \<Rightarrow> (path \<times> string) list" where
  "walk (TextNode t) = [([], t)]"
| "walk (Element a cs) = walks 0 cs"
| "walks i [] = []"
| "walks i (c # cs) = map (\<lambda>(p, t). (i # p, t)) (walk c) @ walks (Suc i) cs"

definition getTextNodes :: "node \<Rightarrow> (path \<times> string) list" where
  "getTextNodes root = (case root of TextNode t \<Rightarrow> [] | Element a cs \<Rightarrow> walks 0 cs)"

text \<open>\<open>parent.replaceChild(fragment, old)\<close> for the node \<open>old\<close> at a path: the children
  of the fragment take the place of \<open>old\<close>. The root has no parent and is never replaced;
  a path that leads nowhere changes nothing.\<close>

fun replaceChild :: "path \<Rightarrow> node list \<Rightarrow> node \<Rightarrow> node" where
  "replaceChild (i # p) frag (Element a cs) =
     (if i < length cs then
        (if p = [] then Element a (take i cs @ frag @ drop (Suc i) cs)
         else Element a (cs[i := replaceChild p frag (cs ! i)]))
      else Element a cs)"
| "replaceChild p frag n = n"

text \<open>All elements of a tree in document order, and \<open>document.getElementById\<close>; the
  empty id matches no element.\<close>

fun elements :: "node \<Rightarrow> node list" where
  "elements (TextNode t) = []"
| "elements (Element a cs) = Element a cs # concat (map elements cs)"

fun identOf :: "node \<Rightarrow> string" where
  "identOf (TextNode t) = []"
| "identOf (Element a cs) = ident a"

fun classOf :: "node \<Rightarrow> string" where
  "classOf (TextNode t) = []"
| "classOf (Element a cs) = className a"

definition elementsById :: "string \<Rightarrow> node \<Rightarrow> node list" where
  "elementsById i doc = filter (\<lambda>e. identOf e = i) (elements doc)"

definition getElementById :: "string \<Rightarrow> node \<Rightarrow> node option" where
  "getElementById i doc =
     (if i = [] then None
      else (case elementsById i doc of [] \<Rightarrow> None | e # _ \<Rightarrow> Some e))"


section \<open>Highlight records\<close>

record highlight =
  h_id :: string
  h_text :: string
  h_color :: string
  h_url :: string
  h_timestamp :: nat

definition highlightClass :: string where
  "highlightClass = ''web-highlighter-highlight''"


section \<open>The content script: restoring a highlight\<close>

text \<open>The span built by \<open>createElement('span')\<close> with class, id, background colour and
  \<open>textContent\<close> set. Setting \<open>textContent\<close> to the empty string leaves no child.\<close>

definition highlightSpan :: "string \<Rightarrow> string \<Rightarrow> string \<Rightarrow> node" where
  "highlightSpan i col t =
     Element \<lparr>tagName = ''span'', className = highlightClass, ident = i,
              style = [(''background-color'', col)]\<rparr>
       (if t = [] then [] else [TextNode t])"

text \<open>The fragment that takes the place of the text node: the text before the first
  occurrence (when not empty), the span, the text after it (when not empty).\<close>

definition restoreFragment :: "highlight \<Rightarrow> string \<Rightarrow> node list" where
  "restoreFragment h t =
     (let textToFind = h_text h;
          at = (case indexOf t textToFind of Some i \<Rightarrow> i | None \<Rightarrow> 0);
          beforeText = substring t 0 at;
          afterText = substringFrom t (at + length textToFind)
      in (if beforeText \<noteq> [] then [TextNode beforeText] else [])
         @ [highlightSpan (h_id h) (h_color h) textToFind]
         @ (if afterText \<noteq> [] then [TextNode afterText] else []))"

text \<open>The \<open>while (textNode = walker.nextNode())\<close> loop of \<open>restoreHighlight\<close>: the first
  text node whose content includes the text is replaced, and the loop ends there.\<close>

fun restoreWalk :: "highlight \<Rightarrow> (path \<times> string) list \<Rightarrow> node \<Rightarrow> node" where
  "restoreWalk h [] doc = doc"
| "restoreWalk h ((p, t) # rest) doc =
     (if includesStr t (h_text h) then replaceChild p (restoreFragment h t) doc
      else restoreWalk h rest doc)"

definition restoreHighlight :: "highlight \<Rightarrow> node \<Rightarrow> node" where
  "restoreHighlight h doc =
     (if h_text h = [] \<or> trim (h_text h) = [] then doc
      else restoreWalk h (getTextNodes doc) doc)"

definition applyHighlights :: "highlight list \<Rightarrow> node \<Rightarrow> node" where
  "applyHighlights hs doc = foldl (\<lambda>d h. restoreHighlight h d) doc hs"


section \<open>The HTML parser\<close>

text \<open>
  The advanced script builds markup as a string and assigns it to \<open>innerHTML\<close>; the
  browser parses the string into nodes. The parser belongs to the browser: the
  functions of the script take it as the parameter \<open>parse\<close>.

  \<open>parseHTML\<close> is a parser for the evaluation of examples. Its tokenizer follows the
  states of the HTML tokenizer for character data, start tags with attributes (double
  quoted, single quoted or unquoted) and end tags; its tree builder appends character
  data to the open element, merging adjacent runs into one text node, opens an element
  at a start tag and closes the open elements up to the nearest one of that name at an
  end tag. Of the attributes an element keeps the class, the id and the declarations
  of the style. Character references are not decoded, and a comment or a declaration
  ends at the first \<open>>\<close>.
\<close>

type_synonym parser = "string \<Rightarrow> node list"

datatype token = Chars string | StartTag string "(string \<times> string) list" | EndTag string

datatype mode =
    Data | TagOpen | EndTagOpen | TagName | EndTagName | EndTagRest | Bogus
  | BeforeAttrName | AttrName | AfterAttrName | BeforeAttrValue
  | ValueDQ | ValueSQ | ValueUQ | AfterValue

record tokenizer =
  tk_mode :: mode
  tk_chars :: string
  tk_name :: string
  tk_attrs :: "(string \<times> string) list"
  tk_aname :: string
  tk_avalue :: string
  tk_out :: "token list"

definition flush :: "tokenizer \<Rightarrow> tokenizer" where
  "flush tk =
     tk\<lparr>tk_out := tk_out tk @ (if tk_chars tk = [] then [] else [Chars (tk_chars tk)]),
        tk_chars := []\<rparr>"

definition pushAttr :: "tokenizer \<Rightarrow> tokenizer" where
  "pushAttr tk =
     tk\<lparr>tk_attrs := tk_attrs tk @ [(tk_aname tk, tk_avalue tk)], tk_aname := [], tk_avalue := []\<rparr>"

definition emitStart :: "tokenizer \<Rightarrow> tokenizer" where
  "emitStart tk = tk\<lparr>tk_out := tk_out tk @ [StartTag (tk_name tk) (tk_attrs tk)], tk_mode := Data\<rparr>"

definition emitEnd :: "tokenizer \<Rightarrow> tokenizer" where
  "emitEnd tk = tk\<lparr>tk_out := tk_out tk @ [EndTag (tk_name tk)], tk_mode := Data\<rparr>"

definition consume :: "char \<Rightarrow> tokenizer \<Rightarrow> tokenizer" where
  "consume c tk =
     (case tk_mode tk of
        Data \<Rightarrow>
          if c = CHR ''<'' then tk\<lparr>tk_mode := TagOpen\<rparr>
          else tk\<lparr>tk_chars := tk_chars tk @ [c]\<rparr>
      | TagOpen \<Rightarrow>
          if isLetter c then (flush tk)\<lparr>tk_mode := TagName, tk_name := [toLower c], tk_attrs := []\<rparr>
          else if c = CHR ''/'' then tk\<lparr>tk_mode := EndTagOpen\<rparr>
          else if c = CHR ''!'' \<or> c = CHR ''?'' then tk\<lparr>tk_mode := Bogus\<rparr>
          else if c = CHR ''<'' then tk\<lparr>tk_chars := tk_chars tk @ ''<''\<rparr>
          else tk\<lparr>tk_chars := tk_chars tk @ [CHR ''<'', c], tk_mode := Data\<rparr>
      | EndTagOpen \<Rightarrow>
          if isLetter c then (flush tk)\<lparr>tk_mode := EndTagName, tk_name := [toLower c]\<rparr>
          else if c = CHR ''>'' then tk\<lparr>tk_mode := Data\<rparr>
          else tk\<lparr>tk_mode := Bogus\<rparr>
      | TagName \<Rightarrow>
          if isSpace c \<or> c = CHR ''/'' then tk\<lparr>tk_mode := BeforeAttrName\<rparr>
          else if c = CHR ''>'' then emitStart tk
          else tk\<lparr>tk_name := tk_name tk @ [toLower c]\<rparr>
      | EndTagName \<Rightarrow>
          if isSpace c \<or> c = CHR ''/'' then tk\<lparr>tk_mode := EndTagRest\<rparr>
          else if c = CHR ''>'' then emitEnd tk
          else tk\<lparr>tk_name := tk_name tk @ [toLower c]\<rparr>
      | EndTagRest \<Rightarrow> if c = CHR ''>'' then emitEnd tk else tk
      | Bogus \<Rightarrow> if c = CHR ''>'' then tk\<lparr>tk_mode := Data\<rparr> else tk
      | BeforeAttrName \<Rightarrow>
          if isSpace c \<or> c = CHR ''/'' then tk
          else if c = CHR ''>'' then emitStart tk
          else tk\<lparr>tk_mode := AttrName, tk_aname := [toLower c], tk_avalue := []\<rparr>
      | AttrName \<Rightarrow>
          if isSpace c then tk\<lparr>tk_mode := AfterAttrName\<rparr>
          else if c = CHR ''/'' then (pushAttr tk)\<lparr>tk_mode := BeforeAttrName\<rparr>
          else if c = CHR ''='' then tk\<lparr>tk_mode := BeforeAttrValue\<rparr>
          else if c = CHR ''>'' then emitStart (pushAttr tk)
          else tk\<lparr>tk_aname := tk_aname tk @ [toLower c]\<rparr>
      | AfterAttrName \<Rightarrow>
          if isSpace c then tk
          else if c = CHR ''/'' then (pushAttr tk)\<lparr>tk_mode := BeforeAttrName\<rparr>
          else if c = CHR ''='' then tk\<lparr>tk_mode := BeforeAttrValue\<rparr>
          else if c = CHR ''>'' then emitStart (pushAttr tk)
          else (pushAttr tk)\<lparr>tk_mode := AttrName, tk_aname := [toLower c]\<rparr>
      | BeforeAttrValue \<Rightarrow>
          if isSpace c then tk
          else if c = CHR 0x22 then tk\<lparr>tk_mode := ValueDQ\<rparr>
          else if c = CHR 0x27 then tk\<lparr>tk_mode := ValueSQ\<rparr>
          else if c = CHR ''>'' then emitStart (pushAttr tk)
          else tk\<lparr>tk_mode := ValueUQ, tk_avalue := [c]\<rparr>
      | ValueDQ \<Rightarrow>
          if c = CHR 0x22 then (pushAttr tk)\<lparr>tk_mode := AfterValue\<rparr>
          else tk\<lparr>tk_avalue := tk_avalue tk @ [c]\<rparr>
      | ValueSQ \<Rightarrow>
          if c = CHR 0x27 then (pushAttr tk)\<lparr>tk_mode := AfterValue\<rparr>
          else tk\<lparr>tk_avalue := tk_avalue tk @ [c]\<rparr>
      | ValueUQ \<Rightarrow>
          if isSpace c then (pushAttr tk)\<lparr>tk_mode := BeforeAttrName\<rparr>
          else if c = CHR ''>'' then emitStart (pushAttr tk)
          else tk\<lparr>tk_avalue := tk_avalue tk @ [c]\<rparr>
      | AfterValue \<Rightarrow>
          if isSpace c \<or> c = CHR ''/'' then tk\<lparr>tk_mode := BeforeAttrName\<rparr>
          else if c = CHR ''>'' then emitStart tk
          else tk\<lparr>tk_mode := AttrName, tk_aname := [toLower c], tk_avalue := []\<rparr>)"

text \<open>At the end of the input a \<open><\<close> or \<open></\<close> that opened no tag is character data, and a
  tag that was not closed is dropped.\<close>

definition finish :: "tokenizer \<Rightarrow> token list" where
  "finish tk =
     tk_out (flush (case tk_mode tk of
                      TagOpen \<Rightarrow> tk\<lparr>tk_chars := tk_chars tk @ ''<''\<rparr>
                    | EndTagOpen \<Rightarrow> tk\<lparr>tk_chars := tk_chars tk @ ''</''\<rparr>
                    | _ \<Rightarrow> tk))"

definition tokenize :: "string \<Rightarrow> token list" where
  "tokenize s =
     finish (foldl (\<lambda>tk c. consume c tk)
       \<lparr>tk_mode = Data, tk_chars = [], tk_name = [], tk_attrs = [], tk_aname = [],
        tk_avalue = [], tk_out = []\<rparr> s)"

text \<open>The declarations of a style attribute: \<open>name: value\<close>, separated by \<open>;\<close>.\<close>

definition trimSpace :: "string \<Rightarrow> string" where
  "trimSpace s = rev (dropWhile isSpace (rev (dropWhile isSpace s)))"

definition styleDeclaration :: "string \<Rightarrow> (string \<times> string) option" where
  "styleDeclaration d =
     (case indexOf d '':'' of
        None \<Rightarrow> None
      | Some i \<Rightarrow>
          (let name = trimSpace (take i d); v = trimSpace (drop (Suc i) d)
           in if name = [] \<or> v = [] then None else Some (name, v)))"

definition parseStyle :: "string \<Rightarrow> (string \<times> string) list" where
  "parseStyle s = List.map_filter styleDeclaration (splitOn (\<lambda>c. c = CHR '';'') s)"

definition attribute :: "(string \<times> string) list \<Rightarrow> string \<Rightarrow> string" where
  "attribute as k = (case map_of as k of None \<Rightarrow> [] | Some v \<Rightarrow> v)"

definition attrsOf :: "string \<Rightarrow> (string \<times> string) list \<Rightarrow> attrs" where
  "attrsOf n as =
     \<lparr>tagName = n, className = attribute as ''class'', ident = attribute as ''id'',
      style = parseStyle (attribute as ''style'')\<rparr>"

text \<open>The tree builder keeps the open elements, innermost first, each with the children
  it has so far, and the nodes at the top level of the fragment.\<close>

definition addText :: "string \<Rightarrow> node list \<Rightarrow> node list" where
  "addText s cs =
     (case rev cs of
        TextNode t # earlier \<Rightarrow> rev earlier @ [TextNode (t @ s)]
      | _ \<Rightarrow> cs @ [TextNode s])"

type_synonym builder = "(attrs \<times> node list) list \<times> node list"

definition appendNodes :: "node list \<Rightarrow> builder \<Rightarrow> builder" where
  "appendNodes ns b =
     (case b of
        ([], base) \<Rightarrow> ([], base @ ns)
      | ((a, cs) # opened, base) \<Rightarrow> ((a, cs @ ns) # opened, base))"

definition appendText :: "string \<Rightarrow> builder \<Rightarrow> builder" where
  "appendText s b =
     (case b of
        ([], base) \<Rightarrow> ([], addText s base)
      | ((a, cs) # opened, base) \<Rightarrow> ((a, addText s cs) # opened, base))"

fun closeTo :: "string \<Rightarrow> node list \<Rightarrow> (attrs \<times> node list) list \<Rightarrow> node list \<Rightarrow> builder" where
  "closeTo n closed [] base = ([], base @ closed)"
| "closeTo n closed ((a, cs) # opened) base =
     (if tagName a = n then appendNodes [Element a (cs @ closed)] (opened, base)
      else closeTo n [Element a (cs @ closed)] opened base)"

fun closeAll :: "node list \<Rightarrow> (attrs \<times> node list) list \<Rightarrow> node list \<Rightarrow> node list" where
  "closeAll closed [] base = base @ closed"
| "closeAll closed ((a, cs) # opened) base = closeAll [Element a (cs @ closed)] opened base"

definition voidTags :: "string list" where
  "voidTags = [''area'', ''base'', ''br'', ''col'', ''embed'', ''hr'', ''img'', ''input'',
               ''link'', ''meta'', ''source'', ''track'', ''wbr'']"

fun insertToken :: "token \<Rightarrow> builder \<Rightarrow> builder" where
  "insertToken (Chars s) b = appendText s b"
| "insertToken (StartTag n as) b =
     (if n \<in> set voidTags then appendNodes [Element (attrsOf n as) []] b
      else (case b of (opened, base) \<Rightarrow> ((attrsOf n as, []) # opened, base)))"
| "insertToken (EndTag n) b =
     (case b of (opened, base) \<Rightarrow>
        if n \<in> set (map (\<lambda>(a, cs). tagName a) opened) then closeTo n [] opened base else b)"

definition parseHTML :: parser where
  "parseHTML s =
     (case foldl (\<lambda>b t. insertToken t b) ([], []) (tokenize s) of
        (opened, base) \<Rightarrow> closeAll [] opened base)"

section \<open>The advanced content script: restoring a highlight\<close>

text \<open>The records of the advanced script also carry the structural anchor: a CSS
  selector and an XPath. A field that is undefined is \<open>None\<close>; a field is truthy when
  it is defined and not the empty string.\<close>

record highlight_adv = highlight +
  h_selector :: "string option"
  h_xpath :: "string option"

definition truthy :: "string option \<Rightarrow> bool" where
  "truthy v = (case v of None \<Rightarrow> False | Some s \<Rightarrow> s \<noteq> [])"

fun nodeAt :: "path \<Rightarrow> node \<Rightarrow> node option" where
  "nodeAt [] n = Some n"
| "nodeAt (i # p) (Element a cs) = (if i < length cs then nodeAt p (cs ! i) else None)"
| "nodeAt (i # p) (TextNode t) = None"

text \<open>\<open>getTextNodes(element)\<close> for the element at a path of the document; the paths
  returned are those from the document root.\<close>

definition getTextNodesAt :: "path \<Rightarrow> node \<Rightarrow> (path \<times> string) list" where
  "getTextNodesAt e doc =
     (case nodeAt e doc of None \<Rightarrow> []
      | Some n \<Rightarrow> map (\<lambda>(p, t). (e @ p, t)) (getTextNodes n))"

text \<open>
  \<open>text.replace(regex, ...)\<close> with the global flag, for the regular expression that
  \<open>escapeRegex\<close> makes of a string: the pattern matches the string literally, leftmost
  occurrences first, without overlap; the empty pattern matches before every code unit
  and at the end. \<open>replaceAll\<close> gives the parts of the result: a run of the text, copied
  as it is, or a match, for which the callback gives the markup of a span.
\<close>

datatype piece = Lit string | Mark string

lemma indexOf_bound: "indexOf s pat = Some i \<Longrightarrow> i + length pat \<le> length s"
proof (induction s arbitrary: i)
  case Nil
  then show ?case by (simp split: if_splits)
next
  case (Cons c cs)
  show ?case
  proof (cases "prefix pat (c # cs)")
    case True
    with Cons.prems have "i = 0" by simp
    with True show ?thesis using prefix_length_le [of pat "c # cs"] by simp
  next
    case False
    with Cons.prems obtain j where "indexOf cs pat = Some j" "i = Suc j" by auto
    with Cons.IH show ?thesis by fastforce
  qed
qed

function replaceAll :: "string \<Rightarrow> string \<Rightarrow> piece list" where
  "replaceAll pat s =
     (if pat = [] then Mark [] # concat (map (\<lambda>c. [Lit [c], Mark []]) s)
      else (case indexOf s pat of
              None \<Rightarrow> [Lit s]
            | Some i \<Rightarrow> Lit (take i s) # Mark pat # replaceAll pat (drop (i + length pat) s)))"
  by pat_completeness auto
termination
proof (relation "measure (\<lambda>(pat, s). length s)")
  show "wf (measure (\<lambda>(pat, s). length s))" by simp
next
  fix pat s :: string and i
  assume "pat \<noteq> []" and "indexOf s pat = Some i"
  then have "i + length pat \<le> length s" and "0 < length pat"
    by (simp_all add: indexOf_bound)
  then have "length s - (i + length pat) < length s" by arith
  then show "((pat, drop (i + length pat) s), (pat, s)) \<in> measure (\<lambda>(pat, s). length s)"
    by simp
qed

declare replaceAll.simps [simp del]

text \<open>The markup that the callback returns for a match: the span's start tag with the
  highlight class, the record's id and the style with the record's colour, the match,
  the end tag. Neither the id, the colour nor the match is escaped.\<close>

definition spanMarkup :: "string \<Rightarrow> string \<Rightarrow> string \<Rightarrow> string" where
  "spanMarkup i col m =
     ''<span class='' @ [CHR 0x22] @ highlightClass @ [CHR 0x22]
     @ '' id='' @ [CHR 0x22] @ i @ [CHR 0x22]
     @ '' style='' @ [CHR 0x22] @ ''background-color: '' @ col
     @ ''; border-radius: 2px; padding: 1px 2px; margin: 0 1px;'' @ [CHR 0x22] @ ''>''
     @ m @ ''</span>''"

fun pieceMarkup :: "string \<Rightarrow> string \<Rightarrow> piece \<Rightarrow> string" where
  "pieceMarkup i col (Lit t) = t"
| "pieceMarkup i col (Mark m) = spanMarkup i col m"

definition replaceMatches :: "string \<Rightarrow> string \<Rightarrow> string \<Rightarrow> string \<Rightarrow> string" where
  "replaceMatches i col pat t = concat (map (pieceMarkup i col) (replaceAll pat t))"

text \<open>\<open>highlightTextNode\<close>: \<open>regex.test(text)\<close> holds exactly when the text includes the
  highlight's text. The new span, with no class, id or style, gets the nodes that the
  parser makes of the markup, and takes the place of the text node.\<close>

definition highlightTextNode :: "parser \<Rightarrow> path \<times> string \<Rightarrow> highlight_adv \<Rightarrow> node \<Rightarrow> node" where
  "highlightTextNode parse textNode h doc =
     (case textNode of (p, t) \<Rightarrow>
        if includesStr t (h_text h) then
          replaceChild p
            [Element \<lparr>tagName = ''span'', className = [], ident = [], style = []\<rparr>
               (parse (replaceMatches (h_id h) (h_color h) (h_text h) t))] doc
        else doc)"

fun findLoop :: "parser \<Rightarrow> highlight_adv \<Rightarrow> (path \<times> string) list \<Rightarrow> node \<Rightarrow> node" where
  "findLoop parse h [] doc = doc"
| "findLoop parse h ((p, t) # rest) doc =
     (if includesStr t (h_text h) then highlightTextNode parse (p, t) h doc
      else findLoop parse h rest doc)"

definition findAndHighlightText :: "parser \<Rightarrow> path \<Rightarrow> highlight_adv \<Rightarrow> node \<Rightarrow> node" where
  "findAndHighlightText parse element h doc = findLoop parse h (getTextNodesAt element doc) doc"

text \<open>The partial match of \<open>searchAndHighlightText\<close>: \<open>minLength\<close>, the loop over the
  lengths \<open>k\<close> at an offset \<open>j\<close>, the loop over the offsets, the loop over the text
  nodes. Each loop stops at the first substring it accepts.\<close>

definition minLength :: "string \<Rightarrow> nat" where
  "minLength target = max 3 (length target div 2)"

fun firstSome :: "('a \<Rightarrow> 'b option) \<Rightarrow> 'a list \<Rightarrow> 'b option" where
  "firstSome f [] = None"
| "firstSome f (x # xs) = (case f x of Some y \<Rightarrow> Some y | None \<Rightarrow> firstSome f xs)"

definition accepts :: "string \<Rightarrow> string \<Rightarrow> bool" where
  "accepts target sub \<longleftrightarrow> includesStr target sub \<and> minLength target \<le> length sub"

definition loopK :: "string \<Rightarrow> string \<Rightarrow> nat \<Rightarrow> string option" where
  "loopK target t j =
     firstSome (\<lambda>k. let sub = substring t j (j + k)
                    in if accepts target sub then Some sub else None)
       [minLength target ..< Suc (min (length t - j) (length target))]"

definition loopJ :: "string \<Rightarrow> string \<Rightarrow> string option" where
  "loopJ target t =
     (if minLength target \<le> length t
      then firstSome (loopK target t) [0 ..< Suc (length t - minLength target)]
      else None)"

fun partialLoop :: "parser \<Rightarrow> highlight_adv \<Rightarrow> (path \<times> string) list \<Rightarrow> node \<Rightarrow> node" where
  "partialLoop parse h [] doc = doc"
| "partialLoop parse h ((p, t) # rest) doc =
     (case loopJ (h_text h) t of
        Some sub \<Rightarrow> highlightTextNode parse (p, t) (h\<lparr>h_text := sub\<rparr>) doc
      | None \<Rightarrow> partialLoop parse h rest doc)"

definition searchAndHighlightText :: "parser \<Rightarrow> highlight_adv \<Rightarrow> node \<Rightarrow> node" where
  "searchAndHighlightText parse h doc =
     (let textNodes = getTextNodes doc
      in if list_ex (\<lambda>(p, t). includesStr t (h_text h)) textNodes
         then findLoop parse h textNodes doc
         else partialLoop parse h textNodes doc)"

text \<open>
  \<open>restoreHighlight\<close> of the advanced script. \<open>document.querySelector\<close> and
  \<open>document.evaluate\<close> belong to the browser; they are the parameters \<open>qs\<close> and \<open>xp\<close>,
  which give the path of the node found, or \<open>None\<close> when there is none or the call
  throws (the script catches that and goes on).
\<close>

type_synonym resolver = "string \<Rightarrow> node \<Rightarrow> path option"

definition resolveAnchor :: "resolver \<Rightarrow> resolver \<Rightarrow> highlight_adv \<Rightarrow> node \<Rightarrow> path option" where
  "resolveAnchor qs xp h doc =
     (let targetElement =
            (if truthy (h_selector h) then qs (the (h_selector h)) doc else None)
      in if targetElement = None \<and> truthy (h_xpath h)
         then xp (the (h_xpath h)) doc else targetElement)"

definition restoreHighlight_adv ::
    "parser \<Rightarrow> resolver \<Rightarrow> resolver \<Rightarrow> highlight_adv \<Rightarrow> node \<Rightarrow> node" where
  "restoreHighlight_adv parse qs xp h doc =
     (case resolveAnchor qs xp h doc of
        Some targetElement \<Rightarrow> findAndHighlightText parse targetElement h doc
      | None \<Rightarrow> searchAndHighlightText parse h doc)"


section \<open>Ranges\<close>

text \<open>
  A \<open>Range\<close> of the DOM: two boundary points, each a container node (by its path) and an
  offset into it, a position between code units for a text node and between children
  for an element. A live range of a document is valid: both points exist and the start
  is not after the end in tree order.
\<close>

record dom_range =
  startContainer :: path
  startOffset :: nat
  endContainer :: path
  endOffset :: nat

fun isElement :: "node \<Rightarrow> bool" where
  "isElement (TextNode t) = False"
| "isElement (Element a cs) = True"

fun nodeLength :: "node \<Rightarrow> nat" where
  "nodeLength (TextNode t) = length t"
| "nodeLength (Element a cs) = length cs"

fun validPoint :: "path \<Rightarrow> nat \<Rightarrow> node \<Rightarrow> bool" where
  "validPoint [] off n = (off \<le> nodeLength n)"
| "validPoint (i # p) off (Element a cs) = (i < length cs \<and> validPoint p off (cs ! i))"
| "validPoint (i # p) off (TextNode t) = False"

fun notAfter :: "path \<Rightarrow> nat \<Rightarrow> path \<Rightarrow> nat \<Rightarrow> bool" where
  "notAfter [] so [] eo = (so \<le> eo)"
| "notAfter [] so (j # ep) eo = (so \<le> j)"
| "notAfter (i # sp) so [] eo = (i < eo)"
| "notAfter (i # sp) so (j # ep) eo = (i < j \<or> (i = j \<and> notAfter sp so ep eo))"

definition validRange :: "dom_range \<Rightarrow> node \<Rightarrow> bool" where
  "validRange r doc \<longleftrightarrow>
     validPoint (startContainer r) (startOffset r) doc \<and>
     validPoint (endContainer r) (endOffset r) doc \<and>
     notAfter (startContainer r) (startOffset r) (endContainer r) (endOffset r)"

text \<open>\<open>range.toString()\<close>: the data of the text nodes in the range, in tree order, with
  the start and end text nodes cut at the offsets.\<close>

fun textAfter :: "path \<Rightarrow> nat \<Rightarrow> node \<Rightarrow> string" where
  "textAfter [] off (TextNode t) = drop off t"
| "textAfter [] off (Element a cs) = concat (map textContent (drop off cs))"
| "textAfter (i # p) off (Element a cs) =
     textAfter p off (cs ! i) @ concat (map textContent (drop (Suc i) cs))"
| "textAfter (i # p) off (TextNode t) = []"

fun textBefore :: "path \<Rightarrow> nat \<Rightarrow> node \<Rightarrow> string" where
  "textBefore [] off (TextNode t) = take off t"
| "textBefore [] off (Element a cs) = concat (map textContent (take off cs))"
| "textBefore (j # p) off (Element a cs) =
     concat (map textContent (take j cs)) @ textBefore p off (cs ! j)"
| "textBefore (j # p) off (TextNode t) = []"

fun rangeText :: "path \<Rightarrow> nat \<Rightarrow> path \<Rightarrow> nat \<Rightarrow> node \<Rightarrow> string" where
  "rangeText [] so [] eo (TextNode t) = take (eo - so) (drop so t)"
| "rangeText [] so [] eo (Element a cs) =
     concat (map textContent (take (eo - so) (drop so cs)))"
| "rangeText [] so (j # ep) eo (Element a cs) =
     concat (map textContent (take (j - so) (drop so cs))) @ textBefore ep eo (cs ! j)"
| "rangeText (i # sp) so [] eo (Element a cs) =
     textAfter sp so (cs ! i) @ concat (map textContent (take (eo - Suc i) (drop (Suc i) cs)))"
| "rangeText (i # sp) so (j # ep) eo (Element a cs) =
     (if i = j then rangeText sp so ep eo (cs ! i)
      else textAfter sp so (cs ! i)
           @ concat (map textContent (take (j - Suc i) (drop (Suc i) cs)))
           @ textBefore ep eo (cs ! j))"
| "rangeText sp so ep eo (TextNode t) = []"

definition range_toString :: "dom_range \<Rightarrow> node \<Rightarrow> string" where
  "range_toString r doc =
     (if validRange r doc
      then rangeText (startContainer r) (startOffset r) (endContainer r) (endOffset r) doc
      else [])"

text \<open>
  Extracting the contents of a range (the DOM's algorithm "extract"). A child of the
  common ancestor that holds the start point is partially contained: it is cloned, the
  clone takes what lies after the point (\<open>splitAfter\<close>, the pair of what stays and the
  clone); likewise for the child that holds the end point (\<open>splitBefore\<close>). The
  children in between move into the fragment as they are.
\<close>

fun splitAfter :: "path \<Rightarrow> nat \<Rightarrow> node \<Rightarrow> node \<times> node" where
  "splitAfter [] off (TextNode t) = (TextNode (take off t), TextNode (drop off t))"
| "splitAfter [] off (Element a cs) = (Element a (take off cs), Element a (drop off cs))"
| "splitAfter (i # p) off (Element a cs) =
     (case splitAfter p off (cs ! i) of
        (kept, clone) \<Rightarrow> (Element a (take i cs @ [kept]), Element a (clone # drop (Suc i) cs)))"
| "splitAfter (i # p) off (TextNode t) = (TextNode t, TextNode [])"

fun splitBefore :: "path \<Rightarrow> nat \<Rightarrow> node \<Rightarrow> node \<times> node" where
  "splitBefore [] off (TextNode t) = (TextNode (drop off t), TextNode (take off t))"
| "splitBefore [] off (Element a cs) = (Element a (drop off cs), Element a (take off cs))"
| "splitBefore (j # p) off (Element a cs) =
     (case splitBefore p off (cs ! j) of
        (kept, clone) \<Rightarrow> (Element a (kept # drop (Suc j) cs), Element a (take j cs @ [clone])))"
| "splitBefore (j # p) off (TextNode t) = (TextNode t, TextNode [])"

text \<open>\<open>extractRange\<close> gives the tree that remains, the children of the fragment, and the
  point the range collapses to. \<open>range.deleteContents()\<close> leaves the same tree and the
  same point, and drops the fragment.\<close>

fun extractRange :: "path \<Rightarrow> nat \<Rightarrow> path \<Rightarrow> nat \<Rightarrow> node \<Rightarrow> node \<times> node list \<times> path \<times> nat" where
  "extractRange [] so [] eo (TextNode t) =
     (if so = eo then (TextNode t, [], [], so)
      else (TextNode (take so t @ drop eo t), [TextNode (take (eo - so) (drop so t))], [], so))"
| "extractRange [] so [] eo (Element a cs) =
     (Element a (take so cs @ drop eo cs), take (eo - so) (drop so cs), [], so)"
| "extractRange [] so (j # ep) eo (Element a cs) =
     (case splitBefore ep eo (cs ! j) of
        (kept, clone) \<Rightarrow>
          (Element a (take so cs @ kept # drop (Suc j) cs),
           take (j - so) (drop so cs) @ [clone], [], so))"
| "extractRange (i # sp) so [] eo (Element a cs) =
     (case splitAfter sp so (cs ! i) of
        (kept, clone) \<Rightarrow>
          (Element a (take i cs @ kept # drop eo cs),
           clone # take (eo - Suc i) (drop (Suc i) cs), [], Suc i))"
| "extractRange (i # sp) so (j # ep) eo (Element a cs) =
     (if i = j then
        (case extractRange sp so ep eo (cs ! i) of
           (n', frag, np, noff) \<Rightarrow> (Element a (cs[i := n']), frag, i # np, noff))
      else
        (case splitAfter sp so (cs ! i) of
           (kept1, clone1) \<Rightarrow>
             (case splitBefore ep eo (cs ! j) of
                (kept2, clone2) \<Rightarrow>
                  (Element a (take i cs @ kept1 # kept2 # drop (Suc j) cs),
                   clone1 # take (j - Suc i) (drop (Suc i) cs) @ [clone2], [], Suc i))))"
| "extractRange sp so ep eo (TextNode t) = (TextNode t, [], [], 0)"

definition extractContents :: "dom_range \<Rightarrow> node \<Rightarrow> node \<times> node list \<times> path \<times> nat" where
  "extractContents r doc =
     extractRange (startContainer r) (startOffset r) (endContainer r) (endOffset r) doc"

definition deleteContents :: "dom_range \<Rightarrow> node \<Rightarrow> node \<times> path \<times> nat" where
  "deleteContents r doc = (case extractContents r doc of (d, frag, np, noff) \<Rightarrow> (d, np, noff))"

text \<open>\<open>range.insertNode(new)\<close> for a collapsed range at a point: a text node is split at
  the offset and the node goes between the halves; in an element the node becomes the
  child at the offset. A text node without a parent cannot take a sibling: the call
  throws, here \<open>None\<close>.\<close>

fun insertInto :: "path \<Rightarrow> nat \<Rightarrow> node \<Rightarrow> node \<Rightarrow> node list" where
  "insertInto [] off new (TextNode t) = [TextNode (take off t), new, TextNode (drop off t)]"
| "insertInto [] off new (Element a cs) = [Element a (take off cs @ new # drop off cs)]"
| "insertInto (i # p) off new (Element a cs) =
     [Element a (take i cs @ insertInto p off new (cs ! i) @ drop (Suc i) cs)]"
| "insertInto (i # p) off new (TextNode t) = [TextNode t]"

definition insertNode :: "path \<Rightarrow> nat \<Rightarrow> node \<Rightarrow> node \<Rightarrow> node option" where
  "insertNode p off new doc = (case insertInto p off new doc of [d] \<Rightarrow> Some d | _ \<Rightarrow> None)"


section \<open>The store and the state of a page\<close>

text \<open>
  \<open>browser.storage.local\<close> is a map from keys to highlight collections. A call on it
  can fail (its promise is rejected); the two flags say whether reads and writes
  succeed. The state of a page is its document, the store, the script's counter and the
  page's URL.
\<close>

datatype error = StorageError | DOMException | IndexSizeError

record 'h storage =
  items :: "string \<rightharpoonup> 'h list"
  readable :: bool
  writable :: bool

definition storage_get :: "'h storage \<Rightarrow> string \<Rightarrow> error + 'h list option" where
  "storage_get s k = (if readable s then Inr (items s k) else Inl StorageError)"

definition storage_set :: "'h storage \<Rightarrow> string \<Rightarrow> 'h list \<Rightarrow> error + 'h storage" where
  "storage_set s k v =
     (if writable s then Inr (s\<lparr>items := (items s)(k \<mapsto> v)\<rparr>) else Inl StorageError)"

definition storage_remove :: "'h storage \<Rightarrow> string \<Rightarrow> error + 'h storage" where
  "storage_remove s k =
     (if writable s then Inr (s\<lparr>items := (items s)(k := None)\<rparr>) else Inl StorageError)"

text \<open>\<open>result[url] || []\<close>\<close>

definition orEmpty :: "'h list option \<Rightarrow> 'h list" where
  "orEmpty v = (case v of None \<Rightarrow> [] | Some hs \<Rightarrow> hs)"

record 'h state =
  doc :: node
  store :: "'h storage"
  highlightCounter :: nat
  location :: string

datatype response = Highlighted string | Count nat | Failed string

fun message :: "error \<Rightarrow> string" where
  "message StorageError = ''storage error''"
| "message DOMException = ''DOM exception''"
| "message IndexSizeError = ''index size error''"

fun showNat :: "nat \<Rightarrow> string" where
  "showNat n = (if n < 10 then [''0123456789'' ! n]
                else showNat (n div 10) @ [''0123456789'' ! (n mod 10)])"

declare showNat.simps [simp del]

definition highlightId :: "nat \<Rightarrow> nat \<Rightarrow> string" where
  "highlightId now counter = ''highlight-'' @ showNat now @ ''-'' @ showNat counter"


section \<open>The content script: creating, saving, clearing\<close>

text \<open>
  \<open>createHighlight\<close>: the counter is incremented, the span gets the range's string as
  its text, the range's contents are deleted and the span is inserted at the point the
  range collapsed to. \<open>now\<close> is the value of \<open>Date.now()\<close>. An exception of
  \<open>insertNode\<close> leaves the contents deleted.
\<close>

definition createHighlight ::
    "dom_range \<Rightarrow> string \<Rightarrow> nat \<Rightarrow> 'h state \<Rightarrow> (error + string \<times> string) \<times> 'h state" where
  "createHighlight r color now st =
     (let counter = Suc (highlightCounter st);
          hid = highlightId now counter;
          selected = range_toString r (doc st);
          span = highlightSpan hid color selected
      in case deleteContents r (doc st) of
           (d, np, noff) \<Rightarrow>
             (case insertNode np noff span d of
                None \<Rightarrow> (Inl DOMException, st\<lparr>doc := d, highlightCounter := counter\<rparr>)
              | Some d' \<Rightarrow>
                  (Inr (hid, selected), st\<lparr>doc := d', highlightCounter := counter\<rparr>)))"

text \<open>\<open>saveHighlight\<close>: read the collection, push the record, write it back. A failed
  read or write is caught and logged. The clock is read again for the timestamp;
  \<open>now\<close> stands for both readings.\<close>

definition saveHighlight :: "string \<Rightarrow> string \<Rightarrow> string \<Rightarrow> nat \<Rightarrow> highlight state \<Rightarrow> highlight state" where
  "saveHighlight hid selected color now st =
     (let url = location st;
          highlightData = \<lparr>h_id = hid, h_text = selected, h_color = color, h_url = url,
                           h_timestamp = now\<rparr>
      in case storage_get (store st) url of
           Inl e \<Rightarrow> st
         | Inr result \<Rightarrow>
             (case storage_set (store st) url (orEmpty result @ [highlightData]) of
                Inl e \<Rightarrow> st
              | Inr s' \<Rightarrow> st\<lparr>store := s'\<rparr>))"

text \<open>
  \<open>window.getSelection()\<close>. The browser gives the selection's string
  (\<open>selection.toString()\<close>) and its ranges; \<open>getRangeAt(0)\<close> is the first range and
  throws when there is none. The string is the browser's rendering of the whole
  selection: it is not computed from the first range, and a selection of several
  ranges, or one inside a form control, has a string that its first range does not
  have.

  \<open>highlightSelection\<close> tests the selection's string and passes the first range to
  \<open>createHighlight\<close>. \<open>saveHighlight\<close> is asynchronous and is not awaited: the response
  is what the call returns, the state is the one after the save has settled.
\<close>

record selection =
  sel_string :: string
  sel_ranges :: "dom_range list"

definition highlightSelection ::
    "string \<Rightarrow> nat \<Rightarrow> selection \<Rightarrow> highlight state \<Rightarrow> response \<times> highlight state" where
  "highlightSelection color now sel st =
     (if trim (sel_string sel) = [] then (Failed ''No text selected'', st)
      else (case sel_ranges sel of
              [] \<Rightarrow> (Failed (message IndexSizeError), st)
            | r # others \<Rightarrow>
                (case createHighlight r color now st of
                   (Inl e, st1) \<Rightarrow> (Failed (message e), st1)
                 | (Inr (hid, t), st1) \<Rightarrow> (Highlighted hid, saveHighlight hid t color now st1))))"

text \<open>
  Unwrapping: every element with the highlight class is replaced by a text node with
  its text content, in document order. Once an element is replaced, the highlight
  elements inside it are no longer in the document, and replacing them changes
  nothing. The selector \<open>.web-highlighter-highlight\<close> matches an element when the class
  is one of the names in its class attribute.
\<close>

definition classTokens :: "string \<Rightarrow> string list" where
  "classTokens s = filter (\<lambda>w. w \<noteq> []) (splitOn isSpace s)"

definition isHighlight :: "node \<Rightarrow> bool" where
  "isHighlight n \<longleftrightarrow> highlightClass \<in> set (classTokens (classOf n))"

fun unwrapAll :: "node \<Rightarrow> node" where
  "unwrapAll (TextNode t) = TextNode t"
| "unwrapAll (Element a cs) =
     Element a (map (\<lambda>c. if isHighlight c then TextNode (textContent c) else unwrapAll c) cs)"

definition querySelectorAll_highlights :: "node \<Rightarrow> node list" where
  "querySelectorAll_highlights d = filter isHighlight (elements d)"

definition clearHighlightsFromStorage :: "'h state \<Rightarrow> 'h state" where
  "clearHighlightsFromStorage st =
     (case storage_remove (store st) (location st) of
        Inl e \<Rightarrow> st
      | Inr s' \<Rightarrow> st\<lparr>store := s'\<rparr>)"

definition clearAllHighlights :: "highlight state \<Rightarrow> response \<times> highlight state" where
  "clearAllHighlights st =
     (let count = length (querySelectorAll_highlights (doc st))
      in if count = 0 then (Count 0, st)
         else (Count count, clearHighlightsFromStorage (st\<lparr>doc := unwrapAll (doc st)\<rparr>)))"

definition deleteHighlight :: "string \<Rightarrow> highlight state \<Rightarrow> response \<times> highlight state" where
  "deleteHighlight hid st =
     (let url = location st
      in case storage_get (store st) url of
           Inl e \<Rightarrow> (Failed (message e), st)
         | Inr result \<Rightarrow>
             (let highlights = orEmpty result;
                  updatedHighlights = filter (\<lambda>h. h_id h \<noteq> hid) highlights
              in case storage_set (store st) url updatedHighlights of
                   Inl e \<Rightarrow> (Failed (message e), st)
                 | Inr s' \<Rightarrow>
                     (Count (length highlights - length updatedHighlights),
                      st\<lparr>store := s'\<rparr>)))"

text \<open>\<open>restoreHighlights\<close> reads the page's collection and, when it is not empty,
  schedules \<open>applyHighlights\<close>; the timer's callback is modelled as running at once.\<close>

definition restoreHighlights :: "highlight state \<Rightarrow> highlight state" where
  "restoreHighlights st =
     (case storage_get (store st) (location st) of
        Inl e \<Rightarrow> st
      | Inr result \<Rightarrow>
          (let highlights = orEmpty result
           in if length highlights > 0
              then st\<lparr>doc := applyHighlights highlights (doc st)\<rparr> else st))"

text \<open>\<open>checkForLostHighlights(element)\<close>, for the element at a path, called for the
  elements that a mutation added. Restoring a highlight keeps the text content of
  every element, so the element's text content is read once, before the loop over the
  records.\<close>

definition checkOne :: "string \<Rightarrow> highlight \<Rightarrow> node \<Rightarrow> node" where
  "checkOne elementText h d =
     (if includesStr elementText (h_text h) then
        (if getElementById (h_id h) d = None then restoreHighlight h d else d)
      else d)"

definition checkForLostHighlights :: "path \<Rightarrow> highlight state \<Rightarrow> highlight state" where
  "checkForLostHighlights element st =
     (case storage_get (store st) (location st) of
        Inl e \<Rightarrow> st
      | Inr result \<Rightarrow>
          (case nodeAt element (doc st) of
             None \<Rightarrow> st
           | Some n \<Rightarrow>
               st\<lparr>doc := foldl (\<lambda>d h. checkOne (textContent n) h d)
                               (doc st) (orEmpty result)\<rparr>))"

definition refreshHighlightsFromStorage :: "highlight state \<Rightarrow> highlight state" where
  "refreshHighlightsFromStorage st =
     (case storage_get (store st) (location st) of
        Inl e \<Rightarrow> st
      | Inr result \<Rightarrow> st\<lparr>doc := applyHighlights (orEmpty result) (unwrapAll (doc st))\<rparr>)"


section \<open>The advanced content script: creating, saving, clearing\<close>

text \<open>\<open>createHighlight\<close>: the contents of the range are extracted and appended to the
  span, which is inserted at the point the range collapsed to.\<close>

definition advSpan :: "string \<Rightarrow> string \<Rightarrow> node list \<Rightarrow> node" where
  "advSpan i col ns =
     Element \<lparr>tagName = ''span'', className = highlightClass, ident = i,
              style = [(''background-color'', col), (''border-radius'', ''2px''),
                       (''padding'', ''1px 2px''), (''margin'', ''0 1px'')]\<rparr> ns"

definition createHighlight_adv ::
    "dom_range \<Rightarrow> string \<Rightarrow> nat \<Rightarrow> 'h state \<Rightarrow> (error + string \<times> string) \<times> 'h state" where
  "createHighlight_adv r color now st =
     (let counter = Suc (highlightCounter st);
          hid = highlightId now counter;
          selected = range_toString r (doc st)
      in case extractContents r (doc st) of
           (d, contents, np, noff) \<Rightarrow>
             (case insertNode np noff (advSpan hid color contents) d of
                None \<Rightarrow> (Inl DOMException, st\<lparr>doc := d, highlightCounter := counter\<rparr>)
              | Some d' \<Rightarrow>
                  (Inr (hid, selected), st\<lparr>doc := d', highlightCounter := counter\<rparr>)))"

text \<open>
  \<open>saveHighlight\<close> passes \<open>document.getElementById(highlightId)\<close> to \<open>generateSelector\<close>
  and \<open>generateXPath\<close>. The element found has the id it was searched by, which is not
  empty, so both return at their first test, with \<open>#id\<close> and \<open>//*[@id="id"]\<close>; their
  other branches are not modelled. When no element is found the calls throw, which is
  caught. After the write to the page's key the collection is read again and then
  written to the backup key. The clock is read again for the timestamp; \<open>now\<close> stands
  for both readings.
\<close>

definition backupKey :: "string \<Rightarrow> string" where
  "backupKey url = ''backup_'' @ url"

definition generateSelector_id :: "string \<Rightarrow> string" where
  "generateSelector_id i = ''#'' @ i"

definition generateXPath_id :: "string \<Rightarrow> string" where
  "generateXPath_id i = ''//*[@id='' @ [CHR 0x22] @ i @ [CHR 0x22] @ '']''"

definition saveHighlight_adv ::
    "string \<Rightarrow> string \<Rightarrow> string \<Rightarrow> nat \<Rightarrow> highlight_adv state \<Rightarrow> highlight_adv state" where
  "saveHighlight_adv hid selected color now st =
     (let url = location st
      in case getElementById hid (doc st) of
           None \<Rightarrow> st
         | Some element \<Rightarrow>
             (let highlightData =
                    \<lparr>h_id = hid, h_text = selected, h_color = color, h_url = url,
                     h_timestamp = now,
                     h_selector = Some (generateSelector_id (identOf element)),
                     h_xpath = Some (generateXPath_id (identOf element))\<rparr>
              in case storage_get (store st) url of
                   Inl e \<Rightarrow> st
                 | Inr result \<Rightarrow>
                     (let highlights = orEmpty result @ [highlightData]
                      in case storage_set (store st) url highlights of
                           Inl e \<Rightarrow> st
                         | Inr s1 \<Rightarrow>
                             (case storage_get s1 url of
                                Inl e \<Rightarrow> st\<lparr>store := s1\<rparr>
                              | Inr verifyResult \<Rightarrow>
                                  (case storage_set s1 (backupKey url) highlights of
                                     Inl e \<Rightarrow> st\<lparr>store := s1\<rparr>
                                   | Inr s2 \<Rightarrow> st\<lparr>store := s2\<rparr>)))))"

definition highlightSelection_adv ::
    "string \<Rightarrow> nat \<Rightarrow> selection \<Rightarrow> highlight_adv state \<Rightarrow> response \<times> highlight_adv state" where
  "highlightSelection_adv color now sel st =
     (if trim (sel_string sel) = [] then (Failed ''No text selected'', st)
      else (case sel_ranges sel of
              [] \<Rightarrow> (Failed (message IndexSizeError), st)
            | r # others \<Rightarrow>
                (case createHighlight_adv r color now st of
                   (Inl e, st1) \<Rightarrow> (Failed (message e), st1)
                 | (Inr (hid, t), st1) \<Rightarrow>
                     (Highlighted hid, saveHighlight_adv hid t color now st1))))"

definition clearAllHighlights_adv :: "highlight_adv state \<Rightarrow> response \<times> highlight_adv state" where
  "clearAllHighlights_adv st =
     (Count (length (querySelectorAll_highlights (doc st))),
      clearHighlightsFromStorage (st\<lparr>doc := unwrapAll (doc st)\<rparr>))"

definition applyHighlights_adv ::
    "parser \<Rightarrow> resolver \<Rightarrow> resolver \<Rightarrow> highlight_adv list \<Rightarrow> node \<Rightarrow> node" where
  "applyHighlights_adv parse qs xp hs d =
     foldl (\<lambda>d h. restoreHighlight_adv parse qs xp h d) d hs"

text \<open>
  \<open>restoreHighlights\<close>: when the page's collection is empty the backup key is read; a
  backup that is there replaces the collection and is written to the page's key.
  \<open>applyHighlights\<close> is scheduled with a timer; the model is that of a page that has
  finished loading, where the callback runs once (the listener for the \<open>load\<close> event is
  added after the event), and runs it at once.
\<close>

definition scheduleApply ::
    "parser \<Rightarrow> resolver \<Rightarrow> resolver \<Rightarrow> highlight_adv list \<Rightarrow> highlight_adv state \<Rightarrow>
     highlight_adv state" where
  "scheduleApply parse qs xp highlights st =
     (if length highlights > 0
      then st\<lparr>doc := applyHighlights_adv parse qs xp highlights (doc st)\<rparr>
      else st)"

definition restoreHighlights_adv ::
    "parser \<Rightarrow> resolver \<Rightarrow> resolver \<Rightarrow> highlight_adv state \<Rightarrow> highlight_adv state" where
  "restoreHighlights_adv parse qs xp st =
     (let url = location st
      in case storage_get (store st) url of
           Inl e \<Rightarrow> st
         | Inr result \<Rightarrow>
             (let highlights = orEmpty result
              in if length highlights = 0 then
                   (case storage_get (store st) (backupKey url) of
                      Inl e \<Rightarrow> st
                    | Inr None \<Rightarrow> scheduleApply parse qs xp highlights st
                    | Inr (Some backup) \<Rightarrow>
                        (case storage_set (store st) url backup of
                           Inl e \<Rightarrow> st
                         | Inr s' \<Rightarrow> scheduleApply parse qs xp backup (st\<lparr>store := s'\<rparr>)))
                 else scheduleApply parse qs xp highlights st))"

text \<open>\<open>checkForLostHighlights(element)\<close> of the advanced script, for the element at a
  path, called for the elements that a mutation added. A restoration below the
  element replaces one text node by one span, so the element stays at its path.\<close>

definition checkOne_adv :: "parser \<Rightarrow> path \<Rightarrow> highlight_adv \<Rightarrow> node \<Rightarrow> node" where
  "checkOne_adv parse element h d =
     (case nodeAt element d of
        None \<Rightarrow> d
      | Some n \<Rightarrow>
          if includesStr (textContent n) (h_text h) then
            (if getElementById (h_id h) d = None then findAndHighlightText parse element h d
             else d)
          else d)"

definition checkForLostHighlights_adv ::
    "parser \<Rightarrow> path \<Rightarrow> highlight_adv state \<Rightarrow> highlight_adv state" where
  "checkForLostHighlights_adv parse element st =
     (case storage_get (store st) (location st) of
        Inl e \<Rightarrow> st
      | Inr result \<Rightarrow>
          st\<lparr>doc := foldl (\<lambda>d h. checkOne_adv parse element h d) (doc st) (orEmpty result)\<rparr>)"

text \<open>
  \<open>document.querySelector\<close> and \<open>document.evaluate\<close> on the anchors that
  \<open>saveHighlight\<close> stores. The selector \<open>#id\<close> is valid when the id is a CSS
  identifier, and then finds the first element in document order with the id; on a
  selector that is not valid \<open>querySelector\<close> throws. The XPath \<open>//*[@id="id"]\<close>
  finds the first element in document order with the id; an id with a double quote
  makes an expression on which \<open>evaluate\<close> throws. Anchors of other forms, and
  identifiers written with escapes, are outside of these resolvers.
\<close>

fun pathsOf :: "node \<Rightarrow> (path \<times> node) list"
  and pathsOfs :: "nat \<Rightarrow> node list \<Rightarrow> (path \<times> node) list" where
  "pathsOf (TextNode t) = []"
| "pathsOf (Element a cs) = ([], Element a cs) # pathsOfs 0 cs"
| "pathsOfs i [] = []"
| "pathsOfs i (c # cs) = map (\<lambda>(p, n). (i # p, n)) (pathsOf c) @ pathsOfs (Suc i) cs"

definition firstById :: "string \<Rightarrow> node \<Rightarrow> path option" where
  "firstById i d =
     (if i = [] then None
      else map_option fst (find (\<lambda>(p, n). identOf n = i) (pathsOf d)))"

definition isIdentStart :: "char \<Rightarrow> bool" where
  "isIdentStart c \<longleftrightarrow> isLetter c \<or> c = CHR ''_'' \<or> (128 :: nat) \<le> of_char c"

definition isIdentChar :: "char \<Rightarrow> bool" where
  "isIdentChar c \<longleftrightarrow> isIdentStart c \<or> isDigit c \<or> c = CHR ''-''"

definition cssIdent :: "string \<Rightarrow> bool" where
  "cssIdent s =
     (case s of
        [] \<Rightarrow> False
      | c # cs \<Rightarrow>
          if c = CHR ''-'' then
            (case cs of
               [] \<Rightarrow> False
             | d # ds \<Rightarrow> (d = CHR ''-'' \<or> isIdentStart d) \<and> list_all isIdentChar ds)
          else isIdentStart c \<and> list_all isIdentChar cs)"

definition querySelector_id :: resolver where
  "querySelector_id sel d =
     (case sel of
        [] \<Rightarrow> None
      | c # i \<Rightarrow> if c = CHR ''#'' \<and> cssIdent i then firstById i d else None)"

definition evaluate_id :: resolver where
  "evaluate_id xpath d =
     (let opening = ''//*[@id='' @ [CHR 0x22]; closing = [CHR 0x22] @ '']'';
          i = take (length xpath - length opening - length closing) (drop (length opening) xpath)
      in if xpath = opening @ i @ closing \<and> CHR 0x22 \<notin> set i then firstById i d else None)"


section \<open>Predicates of the proofs\<close>

text \<open>A record as \<open>highlightSelection\<close> of the advanced script stores it: the id is the
  one that \<open>createHighlight\<close> made of the time and the counter, the selector and the
  XPath are those that \<open>saveHighlight\<close> makes for the element with that id.\<close>

definition storedBy :: "nat \<Rightarrow> nat \<Rightarrow> highlight_adv \<Rightarrow> bool" where
  "storedBy now n h \<longleftrightarrow>
     h_id h = highlightId now n \<and>
     h_selector h = Some (generateSelector_id (h_id h)) \<and>
     h_xpath h = Some (generateXPath_id (h_id h))"

text \<open>What extracting a valid range keeps: the text of the fragment is the range's
  string, the text of the document is the text before the start, the range's string
  and the text after the end, and the point the range collapses to lies between the
  text before the start and the text after the end in the tree that remains.\<close>

definition extractOK :: "path \<Rightarrow> nat \<Rightarrow> path \<Rightarrow> nat \<Rightarrow> node \<Rightarrow> bool" where
  "extractOK sp so ep eo n =
     (case extractRange sp so ep eo n of (rem, frag, np, noff) \<Rightarrow>
        concat (map textContent frag) = rangeText sp so ep eo n \<and>
        textContent n = textBefore sp so n @ rangeText sp so ep eo n @ textAfter ep eo n \<and>
        validPoint np noff rem \<and>
        textBefore np noff rem = textBefore sp so n \<and>
        textAfter np noff rem = textAfter ep eo n \<and>
        (isElement n \<longrightarrow> isElement rem))"


section \<open>Example data\<close>

text \<open>The document, the records and the page states of the examples.\<close>

definition bodyAttrs :: attrs where
  "bodyAttrs = \<lparr>tagName = ''body'', className = [], ident = [], style = []\<rparr>"

definition foxBody :: node where
  "foxBody = Element bodyAttrs [TextNode ''The quick brown fox'']"

definition foxRecord :: highlight where
  "foxRecord = \<lparr>h_id = ''highlight-1000-1'', h_text = ''quick brown'', h_color = ''#ffff00'',
                 h_url = ''http://example.org/'', h_timestamp = 1000\<rparr>"

definition foxState :: "highlight state" where
  "foxState =
     \<lparr>doc = foxBody,
      store = \<lparr>items = [''http://example.org/'' \<mapsto> [foxRecord]],
               readable = True, writable = True\<rparr>,
      highlightCounter = 0, location = ''http://example.org/''\<rparr>"

definition freshState :: "bool \<Rightarrow> highlight state" where
  "freshState w =
     \<lparr>doc = foxBody,
      store = \<lparr>items = Map.empty, readable = True, writable = w\<rparr>,
      highlightCounter = 0, location = ''http://example.org/''\<rparr>"

definition quickBrownRange :: dom_range where
  "quickBrownRange =
     \<lparr>startContainer = [0], startOffset = 4, endContainer = [0], endOffset = 15\<rparr>"

definition quickBrownSelection :: selection where
  "quickBrownSelection = \<lparr>sel_string = ''quick brown'', sel_ranges = [quickBrownRange]\<rparr>"


definition freshState_adv :: "highlight_adv state" where
  "freshState_adv =
     \<lparr>doc = foxBody,
      store = \<lparr>items = Map.empty, readable = True, writable = True\<rparr>,
      highlightCounter = 0, location = ''http://example.org/''\<rparr>"

definition savedRecord_adv :: highlight_adv where
  "savedRecord_adv =
     \<lparr>h_id = ''highlight-1000-1'', h_text = ''quick brown'', h_color = ''#ffff00'',
      h_url = ''http://example.org/'', h_timestamp = 1000,
      h_selector = Some ''#highlight-1000-1'',
      h_xpath = Some (generateXPath_id ''highlight-1000-1'')\<rparr>"


definition boldBody :: node where
  "boldBody = Element bodyAttrs
     [TextNode ''a '',
      Element \<lparr>tagName = ''b'', className = [], ident = [], style = []\<rparr>
        [TextNode ''bold'',
         Element \<lparr>tagName = ''i'', className = [], ident = [], style = []\<rparr> [TextNode ''it'']],
      TextNode '' c'']"


definition crossRange :: dom_range where
  "crossRange = \<lparr>startContainer = [1, 0], startOffset = 2, endContainer = [2], endOffset = 1\<rparr>"


definition foxesBody :: node where
  "foxesBody = Element bodyAttrs
     [Element \<lparr>tagName = ''p'', className = [], ident = [], style = []\<rparr>
        [TextNode ''the fox saw the fox'']]"

definition foxesRecord :: highlight where
  "foxesRecord = \<lparr>h_id = ''highlight-1000-1'', h_text = ''fox'', h_color = ''#ffff00'',
                   h_url = ''http://example.org/'', h_timestamp = 1000\<rparr>"

definition foxesRecord_adv :: highlight_adv where
  "foxesRecord_adv =
     \<lparr>h_id = ''highlight-1000-1'', h_text = ''fox'', h_color = ''#ffff00'',
      h_url = ''http://example.org/'', h_timestamp = 1000,
      h_selector = Some ''#highlight-1000-1'',
      h_xpath = Some (generateXPath_id ''highlight-1000-1'')\<rparr>"

definition foxesState_adv :: "highlight_adv state" where
  "foxesState_adv =
     \<lparr>doc = foxesBody,
      store = \<lparr>items = [''http://example.org/'' \<mapsto> [foxesRecord_adv]],
               readable = True, writable = True\<rparr>,
      highlightCounter = 0, location = ''http://example.org/''\<rparr>"

definition brownBody :: node where
  "brownBody = Element bodyAttrs [TextNode ''the brown dog, the brown cat'']"

definition brownRecord_adv :: highlight_adv where
  "brownRecord_adv =
     \<lparr>h_id = ''highlight-1000-1'', h_text = ''brown fox'', h_color = ''#ffff00'',
      h_url = ''http://example.org/'', h_timestamp = 1000,
      h_selector = Some ''#highlight-1000-1'',
      h_xpath = Some (generateXPath_id ''highlight-1000-1'')\<rparr>"

definition imageBody :: node where
  "imageBody = Element bodyAttrs
     [Element \<lparr>tagName = ''img'', className = [], ident = [], style = []\<rparr> [],
      TextNode ''abc'']"

definition imageSelection :: selection where
  "imageSelection =
     \<lparr>sel_string = ''abc'',
      sel_ranges = [\<lparr>startContainer = [], startOffset = 0, endContainer = [], endOffset = 1\<rparr>,
                    \<lparr>startContainer = [1], startOffset = 0, endContainer = [1], endOffset = 3\<rparr>]\<rparr>"

definition pageState :: "node \<Rightarrow> 'h state" where
  "pageState d =
     \<lparr>doc = d, store = \<lparr>items = Map.empty, readable = True, writable = True\<rparr>,
      highlightCounter = 0, location = ''http://example.org/''\<rparr>"


section \<open>Properties\<close>

subsection \<open>Substrings\<close>

lemma indexOf_None_iff: "indexOf s pat = None \<longleftrightarrow> \<not> sublist pat s"
proof (induction s)
  case Nil
  then show ?case by simp
next
  case (Cons c cs)
  show ?case
    by (simp add: Cons.IH sublist_Cons_right)
qed

lemma includesStr_sublist: "includesStr s pat \<longleftrightarrow> sublist pat s"
  by (simp add: includesStr_def indexOf_None_iff)

lemma indexOf_Some_prefix: "indexOf s pat = Some i \<Longrightarrow> prefix pat (drop i s)"
proof (induction s arbitrary: i)
  case Nil
  then show ?case by (simp split: if_splits)
next
  case (Cons c cs)
  then show ?case by (auto split: if_splits)
qed

lemma indexOf_Some_first: "indexOf s pat = Some i \<Longrightarrow> j < i \<Longrightarrow> \<not> prefix pat (drop j s)"
proof (induction s arbitrary: i j)
  case Nil
  then show ?case by (simp split: if_splits)
next
  case (Cons c cs)
  show ?case
  proof (cases "prefix pat (c # cs)")
    case True
    with Cons.prems show ?thesis by simp
  next
    case False
    with Cons.prems obtain i' where i': "indexOf cs pat = Some i'" "i = Suc i'" by auto
    show ?thesis
    proof (cases j)
      case 0
      with False show ?thesis by simp
    next
      case (Suc j')
      with Cons.prems i' have "j' < i'" by simp
      with Cons.IH i' have "\<not> prefix pat (drop j' cs)" by blast
      with Suc show ?thesis by simp
    qed
  qed
qed

lemma indexOf_split:
  assumes "indexOf s pat = Some i"
  shows "s = take i s @ pat @ drop (i + length pat) s"
proof -
  from assms have "prefix pat (drop i s)" by (rule indexOf_Some_prefix)
  then obtain post where "drop i s = pat @ post" by (auto simp: prefix_def)
  then have "drop (i + length pat) s = post"
    by (metis add.commute append_eq_conv_conj drop_drop)
  with \<open>drop i s = pat @ post\<close> show ?thesis
    by (metis append_take_drop_id)
qed

lemma take_drop_middle:
  fixes t sub :: "'a list"
  assumes "i \<le> length t" "t = take i t @ sub @ rest" "length sub = k"
  shows "take k (drop i t) = sub"
proof -
  from assms(2) have "drop i t = drop i (take i t @ sub @ rest)" by (rule arg_cong)
  also have "\<dots> = sub @ rest" using assms(1) by simp
  finally show ?thesis using assms(3) by simp
qed

subsection \<open>Text nodes and their paths\<close>

lemma walks_paths:
  "(p, t) \<in> set (walk n) \<Longrightarrow> nodeAt p n = Some (TextNode t)"
  "(p, t) \<in> set (walks i cs) \<Longrightarrow>
     \<exists>k q. p = (i + k) # q \<and> k < length cs \<and> nodeAt q (cs ! k) = Some (TextNode t)"
proof (induction n and i cs arbitrary: p t and p t rule: walk_walks.induct)
  case (1 t')
  then show ?case by simp
next
  case (2 a cs)
  from "2.prems" have "(p, t) \<in> set (walks 0 cs)" by simp
  from "2.IH" [OF this] show ?case by auto
next
  case (3 i)
  then show ?case by simp
next
  case (4 i c cs)
  from "4.prems" consider
    (here) q where "p = i # q" "(q, t) \<in> set (walk c)"
    | (later) "(p, t) \<in> set (walks (Suc i) cs)"
    by auto
  then show ?case
  proof cases
    case here
    with "4.IH"(1) have "nodeAt q c = Some (TextNode t)" by blast
    with here show ?thesis by (intro exI [of _ 0]) simp
  next
    case later
    from "4.IH"(2) [OF this] obtain k q where
      "p = (Suc i + k) # q" "k < length cs" "nodeAt q (cs ! k) = Some (TextNode t)" by blast
    then show ?thesis by (intro exI [of _ "Suc k"]) simp
  qed
qed

lemma getTextNodes_nodeAt:
  "nodeAt p d = Some (TextNode t) \<and> p \<noteq> []" if "(p, t) \<in> set (getTextNodes d)"
proof (cases d)
  case (TextNode x)
  then show ?thesis using that by (simp add: getTextNodes_def)
next
  case (Element a cs)
  with that have "(p, t) \<in> set (walks 0 cs)" by (simp add: getTextNodes_def)
  from walks_paths(2) [OF this] Element show ?thesis by auto
qed

lemma textContent_replaceChild:
  "nodeAt p n = Some m \<Longrightarrow> p \<noteq> [] \<Longrightarrow> concat (map textContent frag) = textContent m \<Longrightarrow>
   textContent (replaceChild p frag n) = textContent n"
proof (induction p frag n rule: replaceChild.induct)
  case (1 i p frag a cs)
  from "1.prems" have i: "i < length cs" and at: "nodeAt p (cs ! i) = Some m"
    by (auto split: if_splits)
  have cs: "cs = take i cs @ cs ! i # drop (Suc i) cs"
    using i by (simp add: id_take_nth_drop)
  show ?case
  proof (cases "p = []")
    case True
    with at have "m = cs ! i" by simp
    with "1.prems"(3) have "concat (map textContent frag) = textContent (cs ! i)" by simp
    moreover have "concat (map textContent cs) =
        concat (map textContent (take i cs)) @ textContent (cs ! i) @ concat (map textContent (drop (Suc i) cs))"
      by (subst cs) simp
    ultimately show ?thesis using i True by simp
  next
    case False
    with "1.IH" i at "1.prems"(3)
    have IH: "textContent (replaceChild p frag (cs ! i)) = textContent (cs ! i)" by simp
    have "concat (map textContent (cs[i := replaceChild p frag (cs ! i)])) =
        concat (map textContent (take i cs)) @ textContent (replaceChild p frag (cs ! i)) @ concat (map textContent (drop (Suc i) cs))"
      using i by (simp add: upd_conv_take_nth_drop)
    moreover have "concat (map textContent cs) =
        concat (map textContent (take i cs)) @ textContent (cs ! i) @ concat (map textContent (drop (Suc i) cs))"
      by (subst cs) simp
    ultimately show ?thesis using i False IH by simp
  qed
qed simp_all

lemma nodeAt_append: "nodeAt e d = Some n \<Longrightarrow> nodeAt (e @ p) d = nodeAt p n"
proof (induction e d rule: nodeAt.induct)
  case (1 n)
  then show ?case by simp
next
  case (2 i p a cs)
  then show ?case by (simp split: if_splits)
next
  case (3 i p t)
  then show ?case by simp
qed

lemma getTextNodesAt_nodeAt:
  assumes "(p, t) \<in> set (getTextNodesAt e d)"
  shows "nodeAt p d = Some (TextNode t)"
proof -
  from assms have "\<exists>n q. nodeAt e d = Some n \<and> p = e @ q \<and> (q, t) \<in> set (getTextNodes n)"
    by (cases "nodeAt e d") (auto simp: getTextNodesAt_def)
  then obtain n q where n: "nodeAt e d = Some n" "p = e @ q" "(q, t) \<in> set (getTextNodes n)"
    by blast
  from getTextNodes_nodeAt [OF n(3)] have "nodeAt q n = Some (TextNode t)" by simp
  with nodeAt_append [OF n(1), of q] n(2) show ?thesis by simp
qed

subsection \<open>The loops that look for the first text node\<close>

lemma indexOf_first_occurrence:
  assumes "sublist pat s"
  shows "\<exists>i. indexOf s pat = Some i \<and> i \<le> length s \<and>
    s = take i s @ pat @ drop (i + length pat) s \<and>
    (\<forall>pre' post'. s = pre' @ pat @ post' \<longrightarrow> i \<le> length pre')"
proof -
  from assms obtain i where i: "indexOf s pat = Some i"
    using indexOf_None_iff [of s pat] by auto
  have le: "i \<le> length s" using indexOf_bound [OF i] by simp
  have first: "i \<le> length pre'" if "s = pre' @ pat @ post'" for pre' post'
  proof (rule ccontr)
    assume "\<not> i \<le> length pre'"
    then have "length pre' < i" by simp
    from indexOf_Some_first [OF i this] that show False by simp
  qed
  from i le indexOf_split [OF i] first show ?thesis by blast
qed

lemma restoreFragment_first:
  assumes "sublist (h_text h) t"
  shows "\<exists>pre post. t = pre @ h_text h @ post \<and>
    (\<forall>pre' post'. t = pre' @ h_text h @ post' \<longrightarrow> length pre \<le> length pre') \<and>
    restoreFragment h t =
       (if pre = [] then [] else [TextNode pre])
       @ [highlightSpan (h_id h) (h_color h) (h_text h)]
       @ (if post = [] then [] else [TextNode post])"
proof -
  from assms obtain i where i: "indexOf t (h_text h) = Some i" "i \<le> length t"
    "t = take i t @ h_text h @ drop (i + length (h_text h)) t"
    "\<forall>pre' post'. t = pre' @ h_text h @ post' \<longrightarrow> i \<le> length pre'"
    using indexOf_first_occurrence by blast
  let ?pre = "take i t" and ?post = "drop (i + length (h_text h)) t"
  have 1: "t = ?pre @ h_text h @ ?post" by (rule i(3))
  have 2: "length ?pre \<le> length pre'" if "t = pre' @ h_text h @ post'" for pre' post'
    using i(4) that i(2) by simp
  have 3: "restoreFragment h t =
       (if ?pre = [] then [] else [TextNode ?pre])
       @ [highlightSpan (h_id h) (h_color h) (h_text h)]
       @ (if ?post = [] then [] else [TextNode ?post])"
    using i(1,2) by (simp add: restoreFragment_def substring_def substringFrom_def Let_def min_def)
  from 1 2 3 show ?thesis by blast
qed

lemma restoreWalk_none:
  "\<forall>x \<in> set xs. \<not> sublist (h_text h) (snd x) \<Longrightarrow> restoreWalk h xs d = d"
  by (induction xs) (auto simp: includesStr_sublist)

lemma restoreWalk_first:
  "n < length xs \<Longrightarrow> xs ! n = (p, t) \<Longrightarrow> sublist (h_text h) t \<Longrightarrow>
   \<forall>m<n. \<not> sublist (h_text h) (snd (xs ! m)) \<Longrightarrow>
   restoreWalk h xs d = replaceChild p (restoreFragment h t) d"
proof (induction xs arbitrary: n)
  case Nil
  then show ?case by simp
next
  case (Cons x xs)
  obtain q u where x: "x = (q, u)" by (cases x)
  show ?case
  proof (cases n)
    case 0
    with Cons.prems x show ?thesis by (simp add: includesStr_sublist)
  next
    case (Suc k)
    from Cons.prems(4) Suc have "\<not> sublist (h_text h) (snd ((x # xs) ! 0))" by blast
    with x have no: "\<not> includesStr u (h_text h)" by (simp add: includesStr_sublist)
    from Cons.prems(4) Suc have "\<forall>m<k. \<not> sublist (h_text h) (snd (xs ! m))" by auto
    with Cons.IH [of k] Cons.prems Suc
    have "restoreWalk h xs d = replaceChild p (restoreFragment h t) d" by simp
    with no x show ?thesis by simp
  qed
qed

lemma findLoop_none:
  "\<forall>x \<in> set xs. \<not> sublist (h_text h) (snd x) \<Longrightarrow> findLoop parse h xs d = d"
  by (induction xs) (auto simp: includesStr_sublist)

lemma findLoop_first:
  "n < length xs \<Longrightarrow> xs ! n = (p, t) \<Longrightarrow> sublist (h_text h) t \<Longrightarrow>
   \<forall>m<n. \<not> sublist (h_text h) (snd (xs ! m)) \<Longrightarrow>
   findLoop parse h xs d = highlightTextNode parse (p, t) h d"
proof (induction xs arbitrary: n)
  case Nil
  then show ?case by simp
next
  case (Cons x xs)
  obtain q u where x: "x = (q, u)" by (cases x)
  show ?case
  proof (cases n)
    case 0
    with Cons.prems x show ?thesis by (simp add: includesStr_sublist)
  next
    case (Suc k)
    from Cons.prems(4) Suc have "\<not> sublist (h_text h) (snd ((x # xs) ! 0))" by blast
    with x have no: "\<not> includesStr u (h_text h)" by (simp add: includesStr_sublist)
    from Cons.prems(4) Suc have "\<forall>m<k. \<not> sublist (h_text h) (snd (xs ! m))" by auto
    with Cons.IH [of k] Cons.prems Suc
    have "findLoop parse h xs d = highlightTextNode parse (p, t) h d" by simp
    with no x show ?thesis by simp
  qed
qed

lemma list_ex_includes:
  "list_ex (\<lambda>(p, t). includesStr t target) xs \<longleftrightarrow> (\<exists>x \<in> set xs. sublist target (snd x))"
  by (induction xs) (auto simp: includesStr_sublist)

lemma highlightTextNode_replaces:
  "sublist (h_text h) t \<Longrightarrow>
   highlightTextNode parse (p, t) h d =
     replaceChild p
       [Element \<lparr>tagName = ''span'', className = [], ident = [], style = []\<rparr>
          (parse (replaceMatches (h_id h) (h_color h) (h_text h) t))] d"
  by (simp add: highlightTextNode_def includesStr_sublist)


lemma replaceMatches_none: "\<not> sublist pat t \<Longrightarrow> replaceMatches i col pat t = t"
proof -
  assume a: "\<not> sublist pat t"
  then have "indexOf t pat = None" by (simp add: indexOf_None_iff)
  moreover from a have "pat \<noteq> []" by auto
  ultimately have "replaceAll pat t = [Lit t]" by (subst replaceAll.simps) simp
  then show ?thesis by (simp add: replaceMatches_def)
qed

lemma searchAndHighlightText_exact:
  assumes "n < length (getTextNodes d)" "getTextNodes d ! n = (p, t)" "sublist (h_text h) t"
    "\<forall>m<n. \<not> sublist (h_text h) (snd (getTextNodes d ! m))"
  shows "searchAndHighlightText parse h d =
     replaceChild p
       [Element \<lparr>tagName = ''span'', className = [], ident = [], style = []\<rparr>
          (parse (replaceMatches (h_id h) (h_color h) (h_text h) t))] d"
proof -
  from assms(1,2) have "(p, t) \<in> set (getTextNodes d)" by (metis nth_mem)
  with assms(3) have "\<exists>x \<in> set (getTextNodes d). sublist (h_text h) (snd x)"
    by (intro bexI [of _ "(p, t)"]) simp_all
  then have "searchAndHighlightText parse h d = findLoop parse h (getTextNodes d) d"
    by (simp add: searchAndHighlightText_def Let_def list_ex_includes)
  also have "\<dots> = highlightTextNode parse (p, t) h d"
    using assms by (rule findLoop_first)
  finally show ?thesis using assms(3) by (simp add: highlightTextNode_replaces)
qed


subsection \<open>Elements by id\<close>

lemma pathsOf_elements:
  "map snd (pathsOf n) = elements n"
  "map snd (pathsOfs i cs) = concat (map elements cs)"
  by (induction n and i cs rule: pathsOf_pathsOfs.induct) (simp_all add: case_prod_unfold comp_def)

lemma find_None_filter: "find P xs = None \<longleftrightarrow> filter P xs = []"
  by (induction xs) auto

lemma firstById_None_iff: "firstById i d = None \<longleftrightarrow> getElementById i d = None"
proof (cases "i = []")
  case True
  then show ?thesis by (simp add: firstById_def getElementById_def)
next
  case False
  have "find (\<lambda>(p, n). identOf n = i) (pathsOf d) = None \<longleftrightarrow>
        filter (\<lambda>e. identOf e = i) (map snd (pathsOf d)) = []"
    by (simp add: find_None_filter filter_map comp_def case_prod_unfold)
  with False show ?thesis
    by (simp add: firstById_def getElementById_def elementsById_def pathsOf_elements(1)
        split: list.splits)
qed

lemma querySelector_id_absent:
  "getElementById i d = None \<Longrightarrow> querySelector_id (generateSelector_id i) d = None"
  by (simp add: querySelector_id_def generateSelector_id_def firstById_None_iff)

lemma evaluate_id_absent:
  "getElementById i d = None \<Longrightarrow> evaluate_id (generateXPath_id i) d = None"
  by (simp add: evaluate_id_def generateXPath_id_def firstById_None_iff Let_def)

subsection \<open>Evaluation on the example sentence\<close>

lemma trim_quick_brown: "trim ''quick brown'' \<noteq> []"
  by (simp add: trim_def isWhiteSpace_def)

lemma indexOf_fox: "indexOf ''The quick brown fox'' ''quick brown'' = Some 4"
  by simp

lemma replaceMatches_fox:
  "replaceMatches i col ''quick brown'' ''The quick brown fox'' =
     ''The '' @ spanMarkup i col ''quick brown'' @ '' fox''"
proof -
  have "indexOf '' fox'' ''quick brown'' = None" by simp
  then have "replaceAll ''quick brown'' '' fox'' = [Lit '' fox'']"
    by (subst replaceAll.simps) simp
  then have "replaceAll ''quick brown'' ''The quick brown fox'' =
      [Lit ''The '', Mark ''quick brown'', Lit '' fox'']"
    by (subst replaceAll.simps) (simp add: indexOf_fox)
  then show ?thesis by (simp add: replaceMatches_def)
qed

lemma resolveAnchor_single:
  "resolveAnchor querySelector_id evaluate_id g (Element a [TextNode t]) \<in> {None, Some []}"
  by (auto simp: resolveAnchor_def querySelector_id_def evaluate_id_def Let_def firstById_def
      split: list.splits)

lemma restoreHighlight_adv_single:
  assumes "resolveAnchor qs xp g (Element a [TextNode t]) \<in> {None, Some []}"
    and "sublist (h_text g) t"
  shows "restoreHighlight_adv parse qs xp g (Element a [TextNode t]) =
     Element a [Element \<lparr>tagName = ''span'', className = [], ident = [], style = []\<rparr>
                  (parse (replaceMatches (h_id g) (h_color g) (h_text g) t))]"
proof -
  have n: "getTextNodes (Element a [TextNode t]) = [([0], t)]"
    by (simp add: getTextNodes_def)
  have na: "getTextNodesAt [] (Element a [TextNode t]) = [([0], t)]"
    by (simp add: getTextNodesAt_def n)
  from assms(2) have i: "includesStr t (h_text g)" by (simp add: includesStr_sublist)
  from assms(1) consider "resolveAnchor qs xp g (Element a [TextNode t]) = None"
    | "resolveAnchor qs xp g (Element a [TextNode t]) = Some []" by auto
  then show ?thesis
  proof cases
    case 1
    with i show ?thesis
      by (simp add: restoreHighlight_adv_def searchAndHighlightText_def n highlightTextNode_def)
  next
    case 2
    with i show ?thesis
      by (simp add: restoreHighlight_adv_def findAndHighlightText_def na highlightTextNode_def)
  qed
qed

text \<open>
  Claim C4. A document whose body holds the single text node "The quick brown fox", and
  a record whose text is "quick brown". The simple script puts three nodes in the
  place of the text node: the text "The ", one span with the highlight class, the
  record's id and its colour whose only child is the text "quick brown", and the text
  " fox". The advanced script (when the record's anchor resolves to no node or to the
  body) puts one new span without class, id or style in the place of the text node and
  gives it the markup "The ", one span element with the highlight class, the record's
  id and its colour around "quick brown", and " fox"; with the id and the colour that
  the script gives to a first highlight, the nodes of that markup are the text "The ",
  the highlight span with the text "quick brown", and the text " fox".
\<close>

theorem restore_quick_brown_fox:
  fixes h :: highlight and g :: highlight_adv
  assumes "h_text h = ''quick brown''" and "h_text g = ''quick brown''"
  shows
   "restoreHighlight h (Element a [TextNode ''The quick brown fox'']) =
      Element a
        [TextNode ''The '',
         Element \<lparr>tagName = ''span'', className = ''web-highlighter-highlight'',
                  ident = h_id h, style = [(''background-color'', h_color h)]\<rparr>
           [TextNode ''quick brown''],
         TextNode '' fox'']
  \<and> (resolveAnchor qs xp g (Element a [TextNode ''The quick brown fox'']) \<in> {None, Some []} \<longrightarrow>
      restoreHighlight_adv parse qs xp g (Element a [TextNode ''The quick brown fox'']) =
        Element a
          [Element \<lparr>tagName = ''span'', className = [], ident = [], style = []\<rparr>
             (parse (''The <span class='' @ [CHR 0x22] @ ''web-highlighter-highlight'' @ [CHR 0x22]
                     @ '' id='' @ [CHR 0x22] @ h_id g @ [CHR 0x22]
                     @ '' style='' @ [CHR 0x22] @ ''background-color: '' @ h_color g
                     @ ''; border-radius: 2px; padding: 1px 2px; margin: 0 1px;'' @ [CHR 0x22]
                     @ ''>quick brown</span> fox''))])
  \<and> (h_id g = ''highlight-1000-1'' \<and> h_color g = ''#ffff00'' \<longrightarrow>
      restoreHighlight_adv parseHTML querySelector_id evaluate_id g
          (Element a [TextNode ''The quick brown fox'']) =
        Element a
          [Element \<lparr>tagName = ''span'', className = [], ident = [], style = []\<rparr>
             [TextNode ''The '',
              Element \<lparr>tagName = ''span'', className = ''web-highlighter-highlight'',
                       ident = ''highlight-1000-1'',
                       style = [(''background-color'', ''#ffff00''), (''border-radius'', ''2px''),
                                (''padding'', ''1px 2px''), (''margin'', ''0 1px'')]\<rparr>
                [TextNode ''quick brown''],
              TextNode '' fox'']])"
proof -
  let ?d = "Element a [TextNode ''The quick brown fox'']"
  have simple: "restoreHighlight h ?d =
      Element a
        [TextNode ''The '',
         Element \<lparr>tagName = ''span'', className = ''web-highlighter-highlight'',
                  ident = h_id h, style = [(''background-color'', h_color h)]\<rparr>
           [TextNode ''quick brown''],
         TextNode '' fox'']"
    using assms(1)
    by (simp add: restoreHighlight_def trim_quick_brown getTextNodes_def includesStr_def
        indexOf_fox restoreFragment_def substring_def substringFrom_def highlightSpan_def
        highlightClass_def)
  have s: "sublist (h_text g) ''The quick brown fox''"
    using assms(2) indexOf_fox indexOf_None_iff [of "''The quick brown fox''" "''quick brown''"]
    by simp
  have markup: "restoreHighlight_adv parse qs xp g ?d =
        Element a
          [Element \<lparr>tagName = ''span'', className = [], ident = [], style = []\<rparr>
             (parse (''The <span class='' @ [CHR 0x22] @ ''web-highlighter-highlight'' @ [CHR 0x22]
                     @ '' id='' @ [CHR 0x22] @ h_id g @ [CHR 0x22]
                     @ '' style='' @ [CHR 0x22] @ ''background-color: '' @ h_color g
                     @ ''; border-radius: 2px; padding: 1px 2px; margin: 0 1px;'' @ [CHR 0x22]
                     @ ''>quick brown</span> fox''))]"
    if "resolveAnchor qs xp g ?d \<in> {None, Some []}"
    using restoreHighlight_adv_single [OF that s, of parse]
    by (simp add: assms(2) replaceMatches_fox spanMarkup_def highlightClass_def)
  have p: "parseHTML (''The '' @ spanMarkup ''highlight-1000-1'' ''#ffff00'' ''quick brown'' @ '' fox'') =
        [TextNode ''The '',
         Element \<lparr>tagName = ''span'', className = ''web-highlighter-highlight'',
                  ident = ''highlight-1000-1'',
                  style = [(''background-color'', ''#ffff00''), (''border-radius'', ''2px''),
                           (''padding'', ''1px 2px''), (''margin'', ''0 1px'')]\<rparr>
           [TextNode ''quick brown''],
         TextNode '' fox'']"
    by code_simp
  have nodes: "restoreHighlight_adv parseHTML querySelector_id evaluate_id g ?d =
        Element a
          [Element \<lparr>tagName = ''span'', className = [], ident = [], style = []\<rparr>
             [TextNode ''The '',
              Element \<lparr>tagName = ''span'', className = ''web-highlighter-highlight'',
                       ident = ''highlight-1000-1'',
                       style = [(''background-color'', ''#ffff00''), (''border-radius'', ''2px''),
                                (''padding'', ''1px 2px''), (''margin'', ''0 1px'')]\<rparr>
                [TextNode ''quick brown''],
              TextNode '' fox'']]"
    if "h_id g = ''highlight-1000-1'' \<and> h_color g = ''#ffff00''"
    using restoreHighlight_adv_single [OF resolveAnchor_single s, of parseHTML a] that p
    by (simp add: assms(2) replaceMatches_fox)
  from simple markup nodes show ?thesis by blast
qed

theorem restore_quick_brown_fox_witness:
  "restoreHighlight foxRecord foxBody =
      Element \<lparr>tagName = ''body'', className = [], ident = [], style = []\<rparr>
        [TextNode ''The '',
         Element \<lparr>tagName = ''span'', className = ''web-highlighter-highlight'',
                  ident = ''highlight-1000-1'', style = [(''background-color'', ''#ffff00'')]\<rparr>
           [TextNode ''quick brown''],
         TextNode '' fox'']
   \<and> restoreHighlight_adv parseHTML querySelector_id evaluate_id savedRecord_adv foxBody =
      Element \<lparr>tagName = ''body'', className = [], ident = [], style = []\<rparr>
        [Element \<lparr>tagName = ''span'', className = [], ident = [], style = []\<rparr>
           [TextNode ''The '',
            Element \<lparr>tagName = ''span'', className = ''web-highlighter-highlight'',
                     ident = ''highlight-1000-1'',
                     style = [(''background-color'', ''#ffff00''), (''border-radius'', ''2px''),
                              (''padding'', ''1px 2px''), (''margin'', ''0 1px'')]\<rparr>
              [TextNode ''quick brown''],
            TextNode '' fox'']]"
proof -
  have t: "h_text foxRecord = ''quick brown''" "h_text savedRecord_adv = ''quick brown''"
    by (simp_all add: foxRecord_def savedRecord_adv_def)
  have c: "h_id savedRecord_adv = ''highlight-1000-1'' \<and> h_color savedRecord_adv = ''#ffff00''"
    by (simp add: savedRecord_adv_def)
  have f: "h_id foxRecord = ''highlight-1000-1''" "h_color foxRecord = ''#ffff00''"
    by (simp_all add: foxRecord_def)
  note example = restore_quick_brown_fox [OF t, of bodyAttrs]
  from example c f show ?thesis
    by (simp add: foxBody_def bodyAttrs_def)
qed

subsection \<open>The exact search\<close>

text \<open>
  Claim C8. A page with the paragraph "the fox saw the fox" and a stored record for
  "fox". In the advanced script, \<open>findAndHighlightText\<close> on the paragraph (as
  \<open>checkForLostHighlights\<close> calls it for an element that was added, and as the search of
  \<open>restoreHighlight\<close> does for the body) puts a span in the place of the text node in
  which both occurrences of "fox" are wrapped, each in a span with the record's id: the
  document then holds two elements with that id. The simple script's
  \<open>restoreHighlight\<close> wraps the first occurrence and leaves the second as it is.
\<close>

theorem exact_locator_wraps_every_occurrence:
  "findAndHighlightText parseHTML [0] foxesRecord_adv foxesBody =
     Element \<lparr>tagName = ''body'', className = [], ident = [], style = []\<rparr>
       [Element \<lparr>tagName = ''p'', className = [], ident = [], style = []\<rparr>
          [Element \<lparr>tagName = ''span'', className = [], ident = [], style = []\<rparr>
             [TextNode ''the '',
              Element \<lparr>tagName = ''span'', className = ''web-highlighter-highlight'',
                       ident = ''highlight-1000-1'',
                       style = [(''background-color'', ''#ffff00''), (''border-radius'', ''2px''),
                                (''padding'', ''1px 2px''), (''margin'', ''0 1px'')]\<rparr>
                [TextNode ''fox''],
              TextNode '' saw the '',
              Element \<lparr>tagName = ''span'', className = ''web-highlighter-highlight'',
                       ident = ''highlight-1000-1'',
                       style = [(''background-color'', ''#ffff00''), (''border-radius'', ''2px''),
                                (''padding'', ''1px 2px''), (''margin'', ''0 1px'')]\<rparr>
                [TextNode ''fox'']]]]
   \<and> doc (checkForLostHighlights_adv parseHTML [0] foxesState_adv) =
       findAndHighlightText parseHTML [0] foxesRecord_adv foxesBody
   \<and> restoreHighlight_adv parseHTML querySelector_id evaluate_id foxesRecord_adv foxesBody =
       findAndHighlightText parseHTML [0] foxesRecord_adv foxesBody
   \<and> length (elementsById ''highlight-1000-1''
         (findAndHighlightText parseHTML [0] foxesRecord_adv foxesBody)) = 2
   \<and> restoreHighlight foxesRecord foxesBody =
     Element \<lparr>tagName = ''body'', className = [], ident = [], style = []\<rparr>
       [Element \<lparr>tagName = ''p'', className = [], ident = [], style = []\<rparr>
          [TextNode ''the '',
           Element \<lparr>tagName = ''span'', className = ''web-highlighter-highlight'',
                    ident = ''highlight-1000-1'', style = [(''background-color'', ''#ffff00'')]\<rparr>
             [TextNode ''fox''],
           TextNode '' saw the fox'']]"
proof -
  have a: "findAndHighlightText parseHTML [0] foxesRecord_adv foxesBody =
     Element \<lparr>tagName = ''body'', className = [], ident = [], style = []\<rparr>
       [Element \<lparr>tagName = ''p'', className = [], ident = [], style = []\<rparr>
          [Element \<lparr>tagName = ''span'', className = [], ident = [], style = []\<rparr>
             [TextNode ''the '',
              Element \<lparr>tagName = ''span'', className = ''web-highlighter-highlight'',
                       ident = ''highlight-1000-1'',
                       style = [(''background-color'', ''#ffff00''), (''border-radius'', ''2px''),
                                (''padding'', ''1px 2px''), (''margin'', ''0 1px'')]\<rparr>
                [TextNode ''fox''],
              TextNode '' saw the '',
              Element \<lparr>tagName = ''span'', className = ''web-highlighter-highlight'',
                       ident = ''highlight-1000-1'',
                       style = [(''background-color'', ''#ffff00''), (''border-radius'', ''2px''),
                                (''padding'', ''1px 2px''), (''margin'', ''0 1px'')]\<rparr>
                [TextNode ''fox'']]]]"
    by code_simp
  have b: "doc (checkForLostHighlights_adv parseHTML [0] foxesState_adv) =
       findAndHighlightText parseHTML [0] foxesRecord_adv foxesBody"
    by code_simp
  have c: "restoreHighlight_adv parseHTML querySelector_id evaluate_id foxesRecord_adv foxesBody =
       findAndHighlightText parseHTML [0] foxesRecord_adv foxesBody"
    by code_simp
  have d: "length (elementsById ''highlight-1000-1''
         (findAndHighlightText parseHTML [0] foxesRecord_adv foxesBody)) = 2"
    by code_simp
  have e: "restoreHighlight foxesRecord foxesBody =
     Element \<lparr>tagName = ''body'', className = [], ident = [], style = []\<rparr>
       [Element \<lparr>tagName = ''p'', className = [], ident = [], style = []\<rparr>
          [TextNode ''the '',
           Element \<lparr>tagName = ''span'', className = ''web-highlighter-highlight'',
                    ident = ''highlight-1000-1'', style = [(''background-color'', ''#ffff00'')]\<rparr>
             [TextNode ''fox''],
           TextNode '' saw the fox'']]"
    by code_simp
  from a b c d e show ?thesis by blast
qed

subsection \<open>Restoring twice\<close>

lemma restoreHighlight_foxBody:
  "restoreHighlight foxRecord foxBody =
     Element bodyAttrs [TextNode ''The '',
       highlightSpan ''highlight-1000-1'' ''#ffff00'' ''quick brown'', TextNode '' fox'']"
  by (simp add: foxRecord_def foxBody_def restoreHighlight_def trim_quick_brown getTextNodes_def
      includesStr_def indexOf_fox restoreFragment_def substring_def substringFrom_def)

lemma restoreHighlight_foxBody_again:
  "restoreHighlight foxRecord
     (Element bodyAttrs [TextNode ''The '',
       highlightSpan ''highlight-1000-1'' ''#ffff00'' ''quick brown'', TextNode '' fox'']) =
     Element bodyAttrs [TextNode ''The '',
       Element \<lparr>tagName = ''span'', className = highlightClass, ident = ''highlight-1000-1'',
                style = [(''background-color'', ''#ffff00'')]\<rparr>
         [highlightSpan ''highlight-1000-1'' ''#ffff00'' ''quick brown''],
       TextNode '' fox'']"
  by (simp add: foxRecord_def restoreHighlight_def trim_quick_brown getTextNodes_def
      includesStr_def restoreFragment_def substring_def substringFrom_def highlightSpan_def)

text \<open>
  Claim C1. The simple script on a page whose body is the text "The quick brown fox",
  with one stored record for "quick brown": \<open>restoreHighlights\<close> run twice on the
  unchanged page. \<open>restoreHighlight\<close> does not look for an element with the record's
  id; the second pass finds the text inside the span of the first pass and wraps it
  again, so that the document holds two elements with the record's id, one inside the
  other. \<open>checkForLostHighlights\<close>, which does look for the id first, leaves the
  document of the first pass as it is.
\<close>

theorem restoreHighlights_twice_wraps_twice:
  "doc (restoreHighlights (restoreHighlights foxState)) =
     Element bodyAttrs [TextNode ''The '',
       Element \<lparr>tagName = ''span'', className = highlightClass, ident = ''highlight-1000-1'',
                style = [(''background-color'', ''#ffff00'')]\<rparr>
         [highlightSpan ''highlight-1000-1'' ''#ffff00'' ''quick brown''],
       TextNode '' fox'']
   \<and> length (elementsById ''highlight-1000-1''
        (doc (restoreHighlights (restoreHighlights foxState)))) = 2
   \<and> doc (checkForLostHighlights [] (restoreHighlights foxState)) =
       doc (restoreHighlights foxState)"
proof -
  have once: "restoreHighlights foxState =
      foxState\<lparr>doc := Element bodyAttrs [TextNode ''The '',
       highlightSpan ''highlight-1000-1'' ''#ffff00'' ''quick brown'', TextNode '' fox'']\<rparr>"
    by (simp add: restoreHighlights_def foxState_def storage_get_def orEmpty_def
        applyHighlights_def restoreHighlight_foxBody)
  have twice: "doc (restoreHighlights (restoreHighlights foxState)) =
     Element bodyAttrs [TextNode ''The '',
       Element \<lparr>tagName = ''span'', className = highlightClass, ident = ''highlight-1000-1'',
                style = [(''background-color'', ''#ffff00'')]\<rparr>
         [highlightSpan ''highlight-1000-1'' ''#ffff00'' ''quick brown''],
       TextNode '' fox'']"
    unfolding once
    by (simp add: restoreHighlights_def foxState_def storage_get_def orEmpty_def
        applyHighlights_def restoreHighlight_foxBody_again)
  have count: "length (elementsById ''highlight-1000-1''
        (doc (restoreHighlights (restoreHighlights foxState)))) = 2"
    unfolding twice by (simp add: elementsById_def highlightSpan_def bodyAttrs_def)
  have guarded: "doc (checkForLostHighlights [] (restoreHighlights foxState)) =
       doc (restoreHighlights foxState)"
    unfolding once
    by (simp add: checkForLostHighlights_def foxState_def storage_get_def orEmpty_def
        checkOne_def getElementById_def elementsById_def highlightSpan_def bodyAttrs_def
        foxRecord_def)
  from twice count guarded show ?thesis by blast
qed

subsection \<open>A save that fails\<close>

lemma saveHighlight_not_writable:
  "\<not> writable (store st) \<Longrightarrow> saveHighlight i t c n st = st"
  by (simp add: saveHighlight_def storage_get_def storage_set_def Let_def)

text \<open>
  Claim C5. The simple script with a store that rejects every write: \<open>highlightSelection\<close>
  on the selection "quick brown" answers with success and the new id, the span is in
  the document, and nothing is stored under the page's key. \<open>deleteHighlight\<close> on
  the same store answers with a failure.
\<close>

theorem highlightSelection_success_without_save:
  "highlightSelection ''#ffff00'' 1000 quickBrownSelection (freshState False) =
     (Highlighted ''highlight-1000-1'',
      (freshState False)
        \<lparr>doc := Element bodyAttrs [TextNode ''The '',
                  highlightSpan ''highlight-1000-1'' ''#ffff00'' ''quick brown'',
                  TextNode '' fox''],
         highlightCounter := 1\<rparr>)
   \<and> items (store (snd (highlightSelection ''#ffff00'' 1000 quickBrownSelection
        (freshState False)))) ''http://example.org/'' = None
   \<and> fst (deleteHighlight ''highlight-1000-1'' (freshState False)) = Failed ''storage error''"
proof -
  have v: "validRange quickBrownRange foxBody"
    by (simp add: validRange_def quickBrownRange_def foxBody_def)
  have t: "range_toString quickBrownRange foxBody = ''quick brown''"
    by (simp add: range_toString_def v) (simp add: quickBrownRange_def foxBody_def)
  have d: "deleteContents quickBrownRange foxBody = (Element bodyAttrs [TextNode ''The  fox''], [0], 4)"
    by (simp add: deleteContents_def extractContents_def quickBrownRange_def foxBody_def)
  have i: "insertNode [0] 4 n (Element bodyAttrs [TextNode ''The  fox'']) =
      Some (Element bodyAttrs [TextNode ''The '', n, TextNode '' fox''])" for n
    by (simp add: insertNode_def)
  have id: "highlightId 1000 (Suc 0) = ''highlight-1000-1''"
    by code_simp
  have c: "createHighlight quickBrownRange ''#ffff00'' 1000 (freshState False) =
      (Inr (''highlight-1000-1'', ''quick brown''),
       (freshState False)
        \<lparr>doc := Element bodyAttrs [TextNode ''The '',
                  highlightSpan ''highlight-1000-1'' ''#ffff00'' ''quick brown'',
                  TextNode '' fox''],
         highlightCounter := 1\<rparr>)"
    by (simp add: createHighlight_def freshState_def t d i id Let_def)
  have w: "\<not> writable (store (freshState False))"
    by (simp add: freshState_def)
  have dfs: "doc (freshState False) = foxBody"
    by (simp add: freshState_def)
  have h: "highlightSelection ''#ffff00'' 1000 quickBrownSelection (freshState False) =
     (Highlighted ''highlight-1000-1'',
      (freshState False)
        \<lparr>doc := Element bodyAttrs [TextNode ''The '',
                  highlightSpan ''highlight-1000-1'' ''#ffff00'' ''quick brown'',
                  TextNode '' fox''],
         highlightCounter := 1\<rparr>)"
    unfolding highlightSelection_def
    by (simp add: quickBrownSelection_def c trim_quick_brown saveHighlight_not_writable w)
  have k: "items (store (snd (highlightSelection ''#ffff00'' 1000 quickBrownSelection
        (freshState False)))) ''http://example.org/'' = None"
    unfolding h by (simp add: freshState_def)
  have del: "fst (deleteHighlight ''highlight-1000-1'' (freshState False)) = Failed ''storage error''"
    by (simp add: deleteHighlight_def freshState_def storage_get_def storage_set_def orEmpty_def)
  from h k del show ?thesis by blast
qed

subsection \<open>The partial match\<close>

text \<open>
  Claim C2. A page with the sentence "the brown dog, the brown cat" and a stored record
  for "brown fox": \<open>minLength\<close> is 4, no text node contains the record's text, and the
  first substring that the partial match accepts is "brow", at offset 4.
  \<open>highlightTextNode\<close> is then called for "brow" and wraps every occurrence of it in
  the text node: the document holds two spans with the record's id, the second of
  which is not the accepted candidate.
\<close>

theorem approximate_fallback_wraps_every_occurrence:
  "minLength ''brown fox'' = 4
   \<and> \<not> list_ex (\<lambda>(p, t). includesStr t ''brown fox'') (getTextNodes brownBody)
   \<and> loopJ ''brown fox'' ''the brown dog, the brown cat'' = Some ''brow''
   \<and> searchAndHighlightText parseHTML brownRecord_adv brownBody =
     Element \<lparr>tagName = ''body'', className = [], ident = [], style = []\<rparr>
       [Element \<lparr>tagName = ''span'', className = [], ident = [], style = []\<rparr>
          [TextNode ''the '',
           Element \<lparr>tagName = ''span'', className = ''web-highlighter-highlight'',
                    ident = ''highlight-1000-1'',
                    style = [(''background-color'', ''#ffff00''), (''border-radius'', ''2px''),
                             (''padding'', ''1px 2px''), (''margin'', ''0 1px'')]\<rparr>
             [TextNode ''brow''],
           TextNode ''n dog, the '',
           Element \<lparr>tagName = ''span'', className = ''web-highlighter-highlight'',
                    ident = ''highlight-1000-1'',
                    style = [(''background-color'', ''#ffff00''), (''border-radius'', ''2px''),
                             (''padding'', ''1px 2px''), (''margin'', ''0 1px'')]\<rparr>
             [TextNode ''brow''],
           TextNode ''n cat'']]
   \<and> restoreHighlight_adv parseHTML querySelector_id evaluate_id brownRecord_adv brownBody =
       searchAndHighlightText parseHTML brownRecord_adv brownBody
   \<and> length (elementsById ''highlight-1000-1''
         (searchAndHighlightText parseHTML brownRecord_adv brownBody)) = 2"
proof -
  have a: "minLength ''brown fox'' = 4" by code_simp
  have b: "\<not> list_ex (\<lambda>(p, t). includesStr t ''brown fox'') (getTextNodes brownBody)"
    by code_simp
  have c: "loopJ ''brown fox'' ''the brown dog, the brown cat'' = Some ''brow''" by code_simp
  have d: "searchAndHighlightText parseHTML brownRecord_adv brownBody =
     Element \<lparr>tagName = ''body'', className = [], ident = [], style = []\<rparr>
       [Element \<lparr>tagName = ''span'', className = [], ident = [], style = []\<rparr>
          [TextNode ''the '',
           Element \<lparr>tagName = ''span'', className = ''web-highlighter-highlight'',
                    ident = ''highlight-1000-1'',
                    style = [(''background-color'', ''#ffff00''), (''border-radius'', ''2px''),
                             (''padding'', ''1px 2px''), (''margin'', ''0 1px'')]\<rparr>
             [TextNode ''brow''],
           TextNode ''n dog, the '',
           Element \<lparr>tagName = ''span'', className = ''web-highlighter-highlight'',
                    ident = ''highlight-1000-1'',
                    style = [(''background-color'', ''#ffff00''), (''border-radius'', ''2px''),
                             (''padding'', ''1px 2px''), (''margin'', ''0 1px'')]\<rparr>
             [TextNode ''brow''],
           TextNode ''n cat'']]"
    by code_simp
  have e: "restoreHighlight_adv parseHTML querySelector_id evaluate_id brownRecord_adv brownBody =
       searchAndHighlightText parseHTML brownRecord_adv brownBody"
    by code_simp
  have f: "length (elementsById ''highlight-1000-1''
         (searchAndHighlightText parseHTML brownRecord_adv brownBody)) = 2"
    by code_simp
  from a b c d e f show ?thesis by blast
qed

subsection \<open>Anchor first, then the search of the document\<close>

lemma getElementById_ident: "getElementById i d = Some e \<Longrightarrow> identOf e = i"
proof -
  assume a: "getElementById i d = Some e"
  then have "e \<in> set (elementsById i d)"
    by (auto simp: getElementById_def split: if_splits list.splits)
  then show ?thesis by (simp add: elementsById_def)
qed

lemma backupKey_neq: "backupKey url \<noteq> url"
proof
  assume "backupKey url = url"
  then have "length (backupKey url) = length url" by simp
  then show False by (simp add: backupKey_def)
qed

lemma saveHighlight_adv_items:
  fixes st :: "highlight_adv state"
  assumes "readable (store st)" "writable (store st)" "getElementById hid (doc st) = Some e"
  shows "items (store (saveHighlight_adv hid t c now st)) =
     (items (store st))
       (location st \<mapsto> orEmpty (items (store st) (location st)) @
          [\<lparr>h_id = hid, h_text = t, h_color = c, h_url = location st, h_timestamp = now,
            h_selector = Some (generateSelector_id hid),
            h_xpath = Some (generateXPath_id hid)\<rparr>],
        backupKey (location st) \<mapsto> orEmpty (items (store st) (location st)) @
          [\<lparr>h_id = hid, h_text = t, h_color = c, h_url = location st, h_timestamp = now,
            h_selector = Some (generateSelector_id hid),
            h_xpath = Some (generateXPath_id hid)\<rparr>])"
  using assms getElementById_ident [OF assms(3)]
  by (simp add: saveHighlight_adv_def storage_get_def storage_set_def Let_def)

lemma saveHighlight_adv_storedBy:
  fixes st :: "highlight_adv state"
  assumes "readable (store st)" "writable (store st)"
    "getElementById (highlightId now n) (doc st) = Some e"
  shows "\<exists>h. storedBy now n h \<and> h_text h = t \<and> h_color h = c \<and>
     items (store (saveHighlight_adv (highlightId now n) t c now st)) (location st) =
       Some (orEmpty (items (store st) (location st)) @ [h])"
proof -
  let ?h = "\<lparr>h_id = highlightId now n, h_text = t, h_color = c, h_url = location st,
             h_timestamp = now,
             h_selector = Some (generateSelector_id (highlightId now n)),
             h_xpath = Some (generateXPath_id (highlightId now n))\<rparr>"
  have "storedBy now n ?h" by (simp add: storedBy_def)
  moreover have "items (store (saveHighlight_adv (highlightId now n) t c now st)) (location st) =
       Some (orEmpty (items (store st) (location st)) @ [?h])"
    using saveHighlight_adv_items [OF assms] by (simp add: backupKey_neq)
  ultimately show ?thesis by (intro exI [of _ ?h]) simp
qed

lemma resolveAnchor_storedBy:
  assumes "storedBy now n h" "getElementById (h_id h) d = None"
  shows "resolveAnchor querySelector_id evaluate_id h d = None"
  using assms
  by (simp add: resolveAnchor_def storedBy_def truthy_def querySelector_id_absent
      evaluate_id_absent Let_def)



subsection \<open>The backup key\<close>

lemma clearAllHighlights_adv_state:
  fixes st :: "highlight_adv state"
  assumes "writable (store st)"
  shows "snd (clearAllHighlights_adv st) =
     st\<lparr>doc := unwrapAll (doc st),
        store := (store st)\<lparr>items := (items (store st))(location st := None)\<rparr>\<rparr>"
  using assms
  by (simp add: clearAllHighlights_adv_def clearHighlightsFromStorage_def storage_remove_def)

lemma restoreHighlights_adv_backup:
  fixes st :: "highlight_adv state"
  assumes "readable (store st)" "writable (store st)"
    "orEmpty (items (store st) (location st)) = []"
    "items (store st) (backupKey (location st)) = Some hs" "hs \<noteq> []"
  shows "restoreHighlights_adv parse qs xp st =
     st\<lparr>doc := foldl (\<lambda>d h. restoreHighlight_adv parse qs xp h d) (doc st) hs,
        store := (store st)\<lparr>items := (items (store st))(location st \<mapsto> hs)\<rparr>\<rparr>"
  using assms
  by (simp add: restoreHighlights_adv_def storage_get_def storage_set_def Let_def
      scheduleApply_def applyHighlights_adv_def)

text \<open>
  Claim C10. The advanced script with a store that can be read and written. A save
  (for a span that is in the document) writes the collection with the new record at
  its end to the page's key and to the backup key. \<open>clearAllHighlights\<close> unwraps the
  highlights and removes the page's key and nothing else, so the backup entry stays.
  If the backup entry holds a collection that is not empty, \<open>restoreHighlights\<close> after
  the clear writes it to the page's key and restores its records, in their order, on
  the cleared document. Its first record, when \<open>highlightSelection\<close> stored it and no
  element has its id any more, is restored on the first text node that contains its
  text: a new span takes the place of the node and gets the markup of the node's text
  with the occurrences of the record's text inside the tags of a highlight span.
\<close>

theorem backup_survives_clear:
  fixes st :: "highlight_adv state"
  assumes "readable (store st)" and "writable (store st)"
  shows
   "(\<forall>hid t c now e. getElementById hid (doc st) = Some e \<longrightarrow>
       (\<exists>r. h_id r = hid \<and> h_text r = t \<and> h_color r = c \<and>
          items (store (saveHighlight_adv hid t c now st)) (location st) =
            Some (orEmpty (items (store st) (location st)) @ [r]) \<and>
          items (store (saveHighlight_adv hid t c now st)) (backupKey (location st)) =
            Some (orEmpty (items (store st) (location st)) @ [r])))
  \<and> items (store (snd (clearAllHighlights_adv st))) =
       (items (store st))(location st := None)
  \<and> items (store (snd (clearAllHighlights_adv st))) (backupKey (location st)) =
       items (store st) (backupKey (location st))
  \<and> doc (snd (clearAllHighlights_adv st)) = unwrapAll (doc st)
  \<and> (\<forall>hs. items (store st) (backupKey (location st)) = Some hs \<and> hs \<noteq> [] \<longrightarrow>
       restoreHighlights_adv parse qs xp (snd (clearAllHighlights_adv st)) =
         st\<lparr>doc := foldl (\<lambda>d h. restoreHighlight_adv parse qs xp h d) (unwrapAll (doc st)) hs,
            store := (store st)\<lparr>items := (items (store st))(location st \<mapsto> hs)\<rparr>\<rparr>)
  \<and> (\<forall>h rest now n k p t.
        items (store st) (backupKey (location st)) = Some (h # rest) \<and>
        storedBy now n h \<and> getElementById (h_id h) (unwrapAll (doc st)) = None \<and>
        k < length (getTextNodes (unwrapAll (doc st))) \<and>
        getTextNodes (unwrapAll (doc st)) ! k = (p, t) \<and> sublist (h_text h) t \<and>
        (\<forall>m<k. \<not> sublist (h_text h) (snd (getTextNodes (unwrapAll (doc st)) ! m))) \<longrightarrow>
        doc (restoreHighlights_adv parse querySelector_id evaluate_id
               (snd (clearAllHighlights_adv st))) =
          foldl (\<lambda>d h. restoreHighlight_adv parse querySelector_id evaluate_id h d)
            (replaceChild p
               [Element \<lparr>tagName = ''span'', className = [], ident = [], style = []\<rparr>
                  (parse (replaceMatches (h_id h) (h_color h) (h_text h) t))]
               (unwrapAll (doc st)))
            rest)"
proof -
  let ?cleared = "st\<lparr>doc := unwrapAll (doc st),
        store := (store st)\<lparr>items := (items (store st))(location st := None)\<rparr>\<rparr>"
  have cl: "snd (clearAllHighlights_adv st) = ?cleared"
    by (rule clearAllHighlights_adv_state [OF assms(2)])
  have save: "\<exists>r. h_id r = hid \<and> h_text r = t \<and> h_color r = c \<and>
          items (store (saveHighlight_adv hid t c now st)) (location st) =
            Some (orEmpty (items (store st) (location st)) @ [r]) \<and>
          items (store (saveHighlight_adv hid t c now st)) (backupKey (location st)) =
            Some (orEmpty (items (store st) (location st)) @ [r])"
    if e: "getElementById hid (doc st) = Some e" for hid t c now e
  proof -
    let ?r = "\<lparr>h_id = hid, h_text = t, h_color = c, h_url = location st, h_timestamp = now,
            h_selector = Some (generateSelector_id hid),
            h_xpath = Some (generateXPath_id hid)\<rparr>"
    have "items (store (saveHighlight_adv hid t c now st)) (location st) =
            Some (orEmpty (items (store st) (location st)) @ [?r])"
      and "items (store (saveHighlight_adv hid t c now st)) (backupKey (location st)) =
            Some (orEmpty (items (store st) (location st)) @ [?r])"
      using saveHighlight_adv_items [OF assms e] by (simp_all add: backupKey_neq)
    then show ?thesis by (intro exI [of _ ?r]) simp
  qed
  have main: "items (store (snd (clearAllHighlights_adv st))) = (items (store st))(location st := None)"
    by (simp add: cl)
  have backup: "items (store (snd (clearAllHighlights_adv st))) (backupKey (location st)) =
       items (store st) (backupKey (location st))"
    by (simp add: cl backupKey_neq)
  have cleared: "doc (snd (clearAllHighlights_adv st)) = unwrapAll (doc st)"
    by (simp add: cl)
  have restore: "restoreHighlights_adv parse' qs xp (snd (clearAllHighlights_adv st)) =
         st\<lparr>doc := foldl (\<lambda>d h. restoreHighlight_adv parse' qs xp h d) (unwrapAll (doc st)) hs,
            store := (store st)\<lparr>items := (items (store st))(location st \<mapsto> hs)\<rparr>\<rparr>"
    if b: "items (store st) (backupKey (location st)) = Some hs \<and> hs \<noteq> []" for hs parse' qs xp
  proof -
    have "restoreHighlights_adv parse' qs xp ?cleared =
       ?cleared\<lparr>doc := foldl (\<lambda>d h. restoreHighlight_adv parse' qs xp h d) (doc ?cleared) hs,
          store := (store ?cleared)\<lparr>items := (items (store ?cleared))(location ?cleared \<mapsto> hs)\<rparr>\<rparr>"
      using assms b by (intro restoreHighlights_adv_backup) (simp_all add: orEmpty_def backupKey_neq)
    then show ?thesis by (simp add: cl)
  qed
  have again: "doc (restoreHighlights_adv parse querySelector_id evaluate_id
               (snd (clearAllHighlights_adv st))) =
          foldl (\<lambda>d h. restoreHighlight_adv parse querySelector_id evaluate_id h d)
            (replaceChild p
               [Element \<lparr>tagName = ''span'', className = [], ident = [], style = []\<rparr>
                  (parse (replaceMatches (h_id h) (h_color h) (h_text h) t))]
               (unwrapAll (doc st)))
            rest"
    if c: "items (store st) (backupKey (location st)) = Some (h # rest) \<and>
        storedBy now n h \<and> getElementById (h_id h) (unwrapAll (doc st)) = None \<and>
        k < length (getTextNodes (unwrapAll (doc st))) \<and>
        getTextNodes (unwrapAll (doc st)) ! k = (p, t) \<and> sublist (h_text h) t \<and>
        (\<forall>m<k. \<not> sublist (h_text h) (snd (getTextNodes (unwrapAll (doc st)) ! m)))"
    for h rest now n k p t
  proof -
    from c have "resolveAnchor querySelector_id evaluate_id h (unwrapAll (doc st)) = None"
      using resolveAnchor_storedBy [of now n h "unwrapAll (doc st)"] by blast
    then have "restoreHighlight_adv parse querySelector_id evaluate_id h (unwrapAll (doc st)) =
        searchAndHighlightText parse h (unwrapAll (doc st))"
      by (simp add: restoreHighlight_adv_def)
    also from c have "\<dots> = replaceChild p
               [Element \<lparr>tagName = ''span'', className = [], ident = [], style = []\<rparr>
                  (parse (replaceMatches (h_id h) (h_color h) (h_text h) t))]
               (unwrapAll (doc st))"
      by (intro searchAndHighlightText_exact [of k]) simp_all
    finally have first: "restoreHighlight_adv parse querySelector_id evaluate_id h (unwrapAll (doc st)) =
        replaceChild p
               [Element \<lparr>tagName = ''span'', className = [], ident = [], style = []\<rparr>
                  (parse (replaceMatches (h_id h) (h_color h) (h_text h) t))]
               (unwrapAll (doc st))" .
    from c have "items (store st) (backupKey (location st)) = Some (h # rest) \<and> h # rest \<noteq> []"
      by simp
    from restore [OF this, of parse querySelector_id evaluate_id] first
    show ?thesis by simp
  qed
  from save main backup cleared restore again show ?thesis by blast
qed

theorem backup_survives_clear_witness:
  "items (store (snd (highlightSelection_adv ''#ffff00'' 1000 quickBrownSelection
      freshState_adv))) ''http://example.org/'' = Some [savedRecord_adv]
   \<and> items (store (snd (highlightSelection_adv ''#ffff00'' 1000 quickBrownSelection
      freshState_adv))) ''backup_http://example.org/'' = Some [savedRecord_adv]
   \<and> items (store (snd (clearAllHighlights_adv (snd (highlightSelection_adv ''#ffff00'' 1000
      quickBrownSelection freshState_adv))))) ''http://example.org/'' = None
   \<and> items (store (snd (clearAllHighlights_adv (snd (highlightSelection_adv ''#ffff00'' 1000
      quickBrownSelection freshState_adv))))) ''backup_http://example.org/'' =
       Some [savedRecord_adv]
   \<and> doc (snd (clearAllHighlights_adv (snd (highlightSelection_adv ''#ffff00'' 1000
      quickBrownSelection freshState_adv)))) =
       Element \<lparr>tagName = ''body'', className = [], ident = [], style = []\<rparr>
         [TextNode ''The '', TextNode ''quick brown'', TextNode '' fox'']
   \<and> items (store (restoreHighlights_adv parseHTML querySelector_id evaluate_id
       (snd (clearAllHighlights_adv (snd (highlightSelection_adv ''#ffff00'' 1000
          quickBrownSelection freshState_adv)))))) ''http://example.org/'' = Some [savedRecord_adv]
   \<and> doc (restoreHighlights_adv parseHTML querySelector_id evaluate_id
       (snd (clearAllHighlights_adv (snd (highlightSelection_adv ''#ffff00'' 1000
          quickBrownSelection freshState_adv))))) =
       Element \<lparr>tagName = ''body'', className = [], ident = [], style = []\<rparr>
         [TextNode ''The '',
          Element \<lparr>tagName = ''span'', className = [], ident = [], style = []\<rparr>
            [Element \<lparr>tagName = ''span'', className = ''web-highlighter-highlight'',
                      ident = ''highlight-1000-1'',
                      style = [(''background-color'', ''#ffff00''), (''border-radius'', ''2px''),
                               (''padding'', ''1px 2px''), (''margin'', ''0 1px'')]\<rparr>
               [TextNode ''quick brown'']],
          TextNode '' fox'']"
proof -
  let ?st1 = "snd (highlightSelection_adv ''#ffff00'' 1000 quickBrownSelection freshState_adv)"
  have r: "readable (store ?st1)" and w: "writable (store ?st1)" by code_simp+
  note survives = backup_survives_clear [OF r w, where parse = parseHTML
      and qs = querySelector_id and xp = evaluate_id]
  have l: "location ?st1 = ''http://example.org/''" by code_simp
  have bk: "backupKey ''http://example.org/'' = ''backup_http://example.org/''"
    by (simp add: backupKey_def)
  have m: "items (store ?st1) ''http://example.org/'' = Some [savedRecord_adv]" by code_simp
  have b: "items (store ?st1) ''backup_http://example.org/'' = Some [savedRecord_adv]" by code_simp
  from survives have c1: "items (store (snd (clearAllHighlights_adv ?st1))) ''http://example.org/'' = None"
    by (simp add: l)
  from survives b have c2: "items (store (snd (clearAllHighlights_adv ?st1))) ''backup_http://example.org/'' =
      Some [savedRecord_adv]"
    by (simp add: l bk)
  have u: "unwrapAll (doc ?st1) =
      Element \<lparr>tagName = ''body'', className = [], ident = [], style = []\<rparr>
        [TextNode ''The '', TextNode ''quick brown'', TextNode '' fox'']"
    by code_simp
  from survives u have c3: "doc (snd (clearAllHighlights_adv ?st1)) =
      Element \<lparr>tagName = ''body'', className = [], ident = [], style = []\<rparr>
        [TextNode ''The '', TextNode ''quick brown'', TextNode '' fox'']"
    by simp
  from survives b have step: "restoreHighlights_adv parseHTML querySelector_id evaluate_id
      (snd (clearAllHighlights_adv ?st1)) =
         ?st1\<lparr>doc := foldl (\<lambda>d h. restoreHighlight_adv parseHTML querySelector_id evaluate_id h d)
                    (unwrapAll (doc ?st1)) [savedRecord_adv],
            store := (store ?st1)\<lparr>items := (items (store ?st1))(location ?st1 \<mapsto> [savedRecord_adv])\<rparr>\<rparr>"
    by (simp add: l bk)
  have a: "restoreHighlight_adv parseHTML querySelector_id evaluate_id savedRecord_adv
      (Element \<lparr>tagName = ''body'', className = [], ident = [], style = []\<rparr>
        [TextNode ''The '', TextNode ''quick brown'', TextNode '' fox'']) =
       Element \<lparr>tagName = ''body'', className = [], ident = [], style = []\<rparr>
         [TextNode ''The '',
          Element \<lparr>tagName = ''span'', className = [], ident = [], style = []\<rparr>
            [Element \<lparr>tagName = ''span'', className = ''web-highlighter-highlight'',
                      ident = ''highlight-1000-1'',
                      style = [(''background-color'', ''#ffff00''), (''border-radius'', ''2px''),
                               (''padding'', ''1px 2px''), (''margin'', ''0 1px'')]\<rparr>
               [TextNode ''quick brown'']],
          TextNode '' fox'']"
    by code_simp
  have e1: "items (store (restoreHighlights_adv parseHTML querySelector_id evaluate_id
       (snd (clearAllHighlights_adv ?st1)))) ''http://example.org/'' = Some [savedRecord_adv]"
    by (simp add: step l)
  have e2: "doc (restoreHighlights_adv parseHTML querySelector_id evaluate_id
       (snd (clearAllHighlights_adv ?st1))) =
       Element \<lparr>tagName = ''body'', className = [], ident = [], style = []\<rparr>
         [TextNode ''The '',
          Element \<lparr>tagName = ''span'', className = [], ident = [], style = []\<rparr>
            [Element \<lparr>tagName = ''span'', className = ''web-highlighter-highlight'',
                      ident = ''highlight-1000-1'',
                      style = [(''background-color'', ''#ffff00''), (''border-radius'', ''2px''),
                               (''padding'', ''1px 2px''), (''margin'', ''0 1px'')]\<rparr>
               [TextNode ''quick brown'']],
          TextNode '' fox'']"
    by (simp add: step u a)
  from m b c1 c2 c3 e1 e2 show ?thesis by blast
qed

subsection \<open>The selection's string and the first range\<close>

text \<open>
  Claim C9. A selection of two ranges, the first around an image and the second around
  the word "abc": the selection's string is "abc", the string of its first range is
  empty. \<open>highlightSelection\<close> of the simple script tests the selection's string, so
  the selection passes; \<open>createHighlight\<close> takes the record's text from the first
  range, so the record that is stored has the empty text, and the span that is
  inserted is empty. A selection with a blank string is rejected, and
  \<open>restoreHighlight\<close> leaves the document as it is for a record with the empty text.
\<close>

theorem selection_string_guard_stores_empty_text:
  "trim (sel_string imageSelection) = ''abc''
   \<and> range_toString (hd (sel_ranges imageSelection)) imageBody = []
   \<and> fst (highlightSelection ''#ffff00'' 1000 imageSelection (pageState imageBody)) =
       Highlighted ''highlight-1000-1''
   \<and> items (store (snd (highlightSelection ''#ffff00'' 1000 imageSelection (pageState imageBody))))
         ''http://example.org/'' =
       Some [\<lparr>h_id = ''highlight-1000-1'', h_text = [], h_color = ''#ffff00'',
               h_url = ''http://example.org/'', h_timestamp = 1000\<rparr>]
   \<and> doc (snd (highlightSelection ''#ffff00'' 1000 imageSelection (pageState imageBody))) =
       Element \<lparr>tagName = ''body'', className = [], ident = [], style = []\<rparr>
         [Element \<lparr>tagName = ''span'', className = ''web-highlighter-highlight'',
                  ident = ''highlight-1000-1'', style = [(''background-color'', ''#ffff00'')]\<rparr> [],
          TextNode ''abc'']
   \<and> fst (highlightSelection ''#ffff00'' 1000 (imageSelection\<lparr>sel_string := ''  ''\<rparr>)
         (pageState imageBody)) = Failed ''No text selected''
   \<and> restoreHighlight \<lparr>h_id = ''highlight-1000-1'', h_text = [], h_color = ''#ffff00'',
               h_url = ''http://example.org/'', h_timestamp = 1000\<rparr> imageBody = imageBody"
proof -
  have a: "trim (sel_string imageSelection) = ''abc''" by code_simp
  have b: "range_toString (hd (sel_ranges imageSelection)) imageBody = []" by code_simp
  have c: "fst (highlightSelection ''#ffff00'' 1000 imageSelection (pageState imageBody)) =
       Highlighted ''highlight-1000-1''" by code_simp
  have d: "items (store (snd (highlightSelection ''#ffff00'' 1000 imageSelection (pageState imageBody))))
         ''http://example.org/'' =
       Some [\<lparr>h_id = ''highlight-1000-1'', h_text = [], h_color = ''#ffff00'',
               h_url = ''http://example.org/'', h_timestamp = 1000\<rparr>]" by code_simp
  have e: "doc (snd (highlightSelection ''#ffff00'' 1000 imageSelection (pageState imageBody))) =
       Element \<lparr>tagName = ''body'', className = [], ident = [], style = []\<rparr>
         [Element \<lparr>tagName = ''span'', className = ''web-highlighter-highlight'',
                  ident = ''highlight-1000-1'', style = [(''background-color'', ''#ffff00'')]\<rparr> [],
          TextNode ''abc'']" by code_simp
  have f: "fst (highlightSelection ''#ffff00'' 1000 (imageSelection\<lparr>sel_string := ''  ''\<rparr>)
         (pageState imageBody)) = Failed ''No text selected''" by code_simp
  have g: "restoreHighlight \<lparr>h_id = ''highlight-1000-1'', h_text = [], h_color = ''#ffff00'',
               h_url = ''http://example.org/'', h_timestamp = 1000\<rparr> imageBody = imageBody"
    by code_simp
  from a b c d e f g show ?thesis by blast
qed

subsection \<open>Ranges: extracting, deleting, inserting\<close>

lemma concat_map_nth_split:
  "i < length cs \<Longrightarrow>
   concat (map f cs) = concat (map f (take i cs)) @ f (cs ! i) @ concat (map f (drop (Suc i) cs))"
proof -
  assume "i < length cs"
  then have "cs = take i cs @ cs ! i # drop (Suc i) cs" by (rule id_take_nth_drop)
  then have "concat (map f cs) = concat (map f (take i cs @ cs ! i # drop (Suc i) cs))"
    by (rule arg_cong)
  then show ?thesis by simp
qed

lemma take_mid_drop:
  "so \<le> eo \<Longrightarrow> xs = take so xs @ take (eo - so) (drop so xs) @ drop eo xs"
proof -
  assume "so \<le> eo"
  then have "drop so xs = take (eo - so) (drop so xs) @ drop eo xs"
    by (metis append_take_drop_id drop_drop le_add_diff_inverse2)
  then show ?thesis by (metis append_take_drop_id)
qed

lemma concat_map_take_drop:
  "concat (map f xs) = concat (map f (take n xs)) @ concat (map f (drop n xs))"
proof -
  have "concat (map f xs) = concat (map f (take n xs @ drop n xs))" by simp
  then show ?thesis by (simp only: map_append concat_append)
qed

lemma text_split:
  "validPoint p off n \<Longrightarrow> textContent n = textBefore p off n @ textAfter p off n"
proof (induction p off n rule: validPoint.induct)
  case (1 off n)
  then show ?case by (cases n) (simp_all add: concat_map_take_drop [symmetric])
next
  case (2 i p off a cs)
  then have i: "i < length cs" and IH: "textContent (cs ! i) = textBefore p off (cs ! i) @ textAfter p off (cs ! i)"
    by simp_all
  from concat_map_nth_split [OF i, of textContent] IH show ?case by simp
next
  case (3 i p off t)
  then show ?case by simp
qed

lemma splitAfter_text:
  "validPoint p off n \<Longrightarrow>
   textContent (fst (splitAfter p off n)) = textBefore p off n \<and>
   textContent (snd (splitAfter p off n)) = textAfter p off n"
proof (induction p off n rule: validPoint.induct)
  case (1 off n)
  then show ?case by (cases n) simp_all
next
  case (2 i p off a cs)
  then show ?case by (simp add: case_prod_unfold)
next
  case (3 i p off t)
  then show ?case by simp
qed

lemma splitBefore_text:
  "validPoint p off n \<Longrightarrow>
   textContent (fst (splitBefore p off n)) = textAfter p off n \<and>
   textContent (snd (splitBefore p off n)) = textBefore p off n"
proof (induction p off n rule: validPoint.induct)
  case (1 off n)
  then show ?case by (cases n) simp_all
next
  case (2 i p off a cs)
  then show ?case by (simp add: case_prod_unfold)
next
  case (3 i p off t)
  then show ?case by simp
qed

lemma take_take_append: "n = length xs \<Longrightarrow> take n (xs @ ys) = xs"
  by simp

lemma drop_take_append: "n = length xs \<Longrightarrow> drop n (xs @ ys) = ys"
  by simp

lemma children_split3:
  assumes "so \<le> j" "j < length cs"
  shows "concat (map f cs) =
     concat (map f (take so cs)) @ concat (map f (take (j - so) (drop so cs)))
     @ f (cs ! j) @ concat (map f (drop (Suc j) cs))"
proof -
  have "take j cs = take so cs @ take (j - so) (drop so cs)"
    using assms(1) by (metis le_add_diff_inverse take_add)
  with concat_map_nth_split [OF assms(2), of f] show ?thesis by simp
qed

lemma children_between:
  assumes "i < eo" "eo \<le> length cs"
  shows "concat (map f cs) =
     concat (map f (take i cs)) @ f (cs ! i)
     @ concat (map f (take (eo - Suc i) (drop (Suc i) cs))) @ concat (map f (drop eo cs))"
proof -
  from assms have i: "i < length cs" by simp
  have "drop (Suc i) cs = take (eo - Suc i) (drop (Suc i) cs) @ drop eo cs"
    using assms(1) by (metis Suc_leI append_take_drop_id drop_drop le_add_diff_inverse2)
  then have "concat (map f (drop (Suc i) cs)) =
      concat (map f (take (eo - Suc i) (drop (Suc i) cs))) @ concat (map f (drop eo cs))"
    by (metis concat_append map_append)
  with concat_map_nth_split [OF i, of f] show ?thesis by simp
qed

lemma children_two:
  assumes "i < j" "j < length cs"
  shows "concat (map f cs) =
     concat (map f (take i cs)) @ f (cs ! i)
     @ concat (map f (take (j - Suc i) (drop (Suc i) cs))) @ f (cs ! j)
     @ concat (map f (drop (Suc j) cs))"
proof -
  from assms have i: "i < length cs" by simp
  have jj: "j - Suc i < length (drop (Suc i) cs)" using assms by simp
  have nth: "drop (Suc i) cs ! (j - Suc i) = cs ! j" using assms by simp
  have dr: "drop (Suc (j - Suc i)) (drop (Suc i) cs) = drop (Suc j) cs" using assms(1) by simp
  from concat_map_nth_split [OF jj, of f] nth dr
  have "concat (map f (drop (Suc i) cs)) =
      concat (map f (take (j - Suc i) (drop (Suc i) cs))) @ f (cs ! j) @ concat (map f (drop (Suc j) cs))"
    by simp
  with concat_map_nth_split [OF i, of f] show ?thesis by simp
qed

lemma extractRange_text:
  "validPoint sp so n \<Longrightarrow> validPoint ep eo n \<Longrightarrow> notAfter sp so ep eo \<Longrightarrow>
   extractOK sp so ep eo n"
proof (induction sp so ep eo n rule: extractRange.induct)
  case (1 so eo t)
  then have b: "so \<le> eo" "eo \<le> length t" "so \<le> length t" by simp_all
  have t: "t = take so t @ take (eo - so) (drop so t) @ drop eo t"
    using b(1) by (rule take_mid_drop)
  show ?case
  proof (cases "so = eo")
    case True
    with b show ?thesis by (simp add: extractOK_def)
  next
    case False
    have "take so (take so t @ drop eo t) = take so t" using b(3) by simp
    moreover have "drop so (take so t @ drop eo t) = drop eo t" using b(3) by simp
    ultimately show ?thesis using False b t by (simp add: extractOK_def)
  qed
next
  case (2 so eo a cs)
  then have b: "so \<le> eo" "eo \<le> length cs" "so \<le> length cs" by simp_all
  have "cs = take so cs @ take (eo - so) (drop so cs) @ drop eo cs"
    using b(1) by (rule take_mid_drop)
  then have "concat (map textContent cs) =
      concat (map textContent (take so cs @ take (eo - so) (drop so cs) @ drop eo cs))"
    by (rule arg_cong)
  then have c: "concat (map textContent cs) =
      concat (map textContent (take so cs)) @ concat (map textContent (take (eo - so) (drop so cs)))
      @ concat (map textContent (drop eo cs))" by simp
  have "take so (take so cs @ drop eo cs) = take so cs" using b(3) by simp
  moreover have "drop so (take so cs @ drop eo cs) = drop eo cs" using b(3) by simp
  ultimately show ?case using b c by (simp add: extractOK_def)
next
  case (3 so j ep eo a cs)
  then have b: "so \<le> j" "j < length cs" "so \<le> length cs" and v: "validPoint ep eo (cs ! j)"
    by simp_all
  obtain kept clone where s: "splitBefore ep eo (cs ! j) = (kept, clone)"
    by (cases "splitBefore ep eo (cs ! j)")
  from splitBefore_text [OF v] s
  have k: "textContent kept = textAfter ep eo (cs ! j)"
    and c: "textContent clone = textBefore ep eo (cs ! j)" by simp_all
  from text_split [OF v] have ts: "textContent (cs ! j) = textBefore ep eo (cs ! j) @ textAfter ep eo (cs ! j)" .
  have t1: "take so (take so cs @ kept # drop (Suc j) cs) = take so cs" using b(3) by simp
  have t2: "drop so (take so cs @ kept # drop (Suc j) cs) = kept # drop (Suc j) cs" using b(3) by simp
  from children_split3 [OF b(1,2), of textContent] ts
  have all: "concat (map textContent cs) =
     concat (map textContent (take so cs)) @ concat (map textContent (take (j - so) (drop so cs)))
     @ textBefore ep eo (cs ! j) @ textAfter ep eo (cs ! j) @ concat (map textContent (drop (Suc j) cs))"
    by simp
  show ?case using s k c b all by (simp add: extractOK_def t1 t2)
next
  case (4 i sp so eo a cs)
  then have b: "i < eo" "eo \<le> length cs" "i < length cs" and v: "validPoint sp so (cs ! i)"
    by simp_all
  obtain kept clone where s: "splitAfter sp so (cs ! i) = (kept, clone)"
    by (cases "splitAfter sp so (cs ! i)")
  from splitAfter_text [OF v] s
  have k: "textContent kept = textBefore sp so (cs ! i)"
    and c: "textContent clone = textAfter sp so (cs ! i)" by simp_all
  from text_split [OF v] have ts: "textContent (cs ! i) = textBefore sp so (cs ! i) @ textAfter sp so (cs ! i)" .
  have t1: "take (Suc i) (take i cs @ kept # drop eo cs) = take i cs @ [kept]" using b(3) by simp
  have t2: "drop (Suc i) (take i cs @ kept # drop eo cs) = drop eo cs" using b(3) by simp
  from children_between [OF b(1,2), of textContent] ts
  have all: "concat (map textContent cs) =
     concat (map textContent (take i cs)) @ textBefore sp so (cs ! i) @ textAfter sp so (cs ! i)
     @ concat (map textContent (take (eo - Suc i) (drop (Suc i) cs))) @ concat (map textContent (drop eo cs))"
    by simp
  show ?case using s k c b all by (simp add: extractOK_def t1 t2)
next
  case (5 i sp so j ep eo a cs)
  from "5.prems" have i: "i < length cs" and j: "j < length cs"
    and vs: "validPoint sp so (cs ! i)" and ve: "validPoint ep eo (cs ! j)"
    and ord: "i < j \<or> (i = j \<and> notAfter sp so ep eo)" by simp_all
  show ?case
  proof (cases "i = j")
    case True
    with ord have na: "notAfter sp so ep eo" by simp
    from "5.IH" [OF True vs] ve True na have IH: "extractOK sp so ep eo (cs ! i)" by simp
    obtain n' frag np noff where e: "extractRange sp so ep eo (cs ! i) = (n', frag, np, noff)"
      by (cases "extractRange sp so ep eo (cs ! i)")
    from IH e have f: "concat (map textContent frag) = rangeText sp so ep eo (cs ! i)"
      and t: "textContent (cs ! i) = textBefore sp so (cs ! i) @ rangeText sp so ep eo (cs ! i) @ textAfter ep eo (cs ! i)"
      and v: "validPoint np noff n'"
      and tb: "textBefore np noff n' = textBefore sp so (cs ! i)"
      and ta: "textAfter np noff n' = textAfter ep eo (cs ! i)"
      by (simp_all add: extractOK_def)
    from concat_map_nth_split [OF i, of textContent] t
    have all: "concat (map textContent cs) =
       concat (map textContent (take i cs)) @ textBefore sp so (cs ! i) @ rangeText sp so ep eo (cs ! i)
       @ textAfter ep eo (cs ! i) @ concat (map textContent (drop (Suc i) cs))" by simp
    show ?thesis using True e f v tb ta i all by (simp add: extractOK_def)
  next
    case False
    with ord have lt: "i < j" by simp
    obtain k1 c1 where s1: "splitAfter sp so (cs ! i) = (k1, c1)"
      by (cases "splitAfter sp so (cs ! i)")
    obtain k2 c2 where s2: "splitBefore ep eo (cs ! j) = (k2, c2)"
      by (cases "splitBefore ep eo (cs ! j)")
    from splitAfter_text [OF vs] s1
    have k1: "textContent k1 = textBefore sp so (cs ! i)"
      and c1: "textContent c1 = textAfter sp so (cs ! i)" by simp_all
    from splitBefore_text [OF ve] s2
    have k2: "textContent k2 = textAfter ep eo (cs ! j)"
      and c2: "textContent c2 = textBefore ep eo (cs ! j)" by simp_all
    from text_split [OF vs] have ts1: "textContent (cs ! i) = textBefore sp so (cs ! i) @ textAfter sp so (cs ! i)" .
    from text_split [OF ve] have ts2: "textContent (cs ! j) = textBefore ep eo (cs ! j) @ textAfter ep eo (cs ! j)" .
    have t1: "take (Suc i) (take i cs @ k1 # k2 # drop (Suc j) cs) = take i cs @ [k1]" using i by simp
    have t2: "drop (Suc i) (take i cs @ k1 # k2 # drop (Suc j) cs) = k2 # drop (Suc j) cs" using i by simp
    from children_two [OF lt j, of textContent] ts1 ts2
    have all: "concat (map textContent cs) =
       concat (map textContent (take i cs)) @ textBefore sp so (cs ! i) @ textAfter sp so (cs ! i)
       @ concat (map textContent (take (j - Suc i) (drop (Suc i) cs)))
       @ textBefore ep eo (cs ! j) @ textAfter ep eo (cs ! j)
       @ concat (map textContent (drop (Suc j) cs))" by simp
    show ?thesis using False s1 s2 k1 c1 k2 c2 i j all by (simp add: extractOK_def t1 t2)
  qed
qed simp_all

lemma insertInto_text:
  "validPoint p off n \<Longrightarrow>
   concat (map textContent (insertInto p off new n)) =
     textBefore p off n @ textContent new @ textAfter p off n"
proof (induction p off n rule: validPoint.induct)
  case (1 off n)
  then show ?case by (cases n) simp_all
next
  case (2 i p off a cs)
  then show ?case by simp
next
  case (3 i p off t)
  then show ?case by simp
qed

lemma insertInto_Element:
  "isElement n \<Longrightarrow> \<exists>d. insertInto p off new n = [d] \<and> isElement d"
  by (cases n; cases p) simp_all

lemma insertInto_nodeAt:
  "validPoint p off n \<Longrightarrow>
   \<exists>k q. k < length (insertInto p off new n) \<and> nodeAt q (insertInto p off new n ! k) = Some new"
proof (induction p off n rule: validPoint.induct)
  case (1 off n)
  show ?case
  proof (cases n)
    case (TextNode t)
    then show ?thesis by (intro exI [of _ 1] exI [of _ "[]"]) simp
  next
    case (Element a cs)
    with 1 have "off \<le> length cs" by simp
    then have "nodeAt [off] (Element a (take off cs @ new # drop off cs)) = Some new"
      by (simp add: nth_append)
    with Element show ?thesis by (intro exI [of _ 0] exI [of _ "[off]"]) simp
  qed
next
  case (2 i p off a cs)
  then have i: "i < length cs" and v: "validPoint p off (cs ! i)" by simp_all
  from "2.IH" [OF v] obtain k q where k: "k < length (insertInto p off new (cs ! i))"
    and q: "nodeAt q (insertInto p off new (cs ! i) ! k) = Some new" by blast
  let ?L = "insertInto p off new (cs ! i)"
  have "(take i cs @ ?L @ drop (Suc i) cs) ! (i + k) = ?L ! k"
    using i k by (simp add: nth_append)
  moreover have "i + k < length (take i cs @ ?L @ drop (Suc i) cs)" using i k by simp
  ultimately have "nodeAt ((i + k) # q) (Element a (take i cs @ ?L @ drop (Suc i) cs)) = Some new"
    using q by simp
  then show ?case by (intro exI [of _ 0] exI [of _ "(i + k) # q"]) simp
next
  case (3 i p off t)
  then show ?case by simp
qed

lemma textContent_unwrapAll: "textContent (unwrapAll n) = textContent n"
proof (induction n rule: unwrapAll.induct)
  case (1 t)
  then show ?case by simp
next
  case (2 a cs)
  have "map textContent (map (\<lambda>c. if isHighlight c then TextNode (textContent c) else unwrapAll c) cs)
      = map textContent cs"
    unfolding map_map using 2 by (intro map_cong) auto
  then show ?case by (simp only: unwrapAll.simps textContent.simps)
qed

text \<open>What inserting a node after extracting the range gives.\<close>

lemma wrap_range:
  assumes "validRange r d" "isElement d"
  shows "\<exists>rem frag np noff d' q.
     extractContents r d = (rem, frag, np, noff) \<and>
     insertNode np noff new rem = Some d' \<and>
     nodeAt q d' = Some new \<and>
     concat (map textContent frag) = range_toString r d \<and>
     textContent d = textBefore (startContainer r) (startOffset r) d @ range_toString r d
        @ textAfter (endContainer r) (endOffset r) d \<and>
     textContent d' = textBefore (startContainer r) (startOffset r) d @ textContent new
        @ textAfter (endContainer r) (endOffset r) d"
proof -
  let ?sp = "startContainer r" and ?so = "startOffset r"
  let ?ep = "endContainer r" and ?eo = "endOffset r"
  from assms(1) have v: "validPoint ?sp ?so d" "validPoint ?ep ?eo d" "notAfter ?sp ?so ?ep ?eo"
    by (simp_all add: validRange_def)
  then have ok: "extractOK ?sp ?so ?ep ?eo d" by (rule extractRange_text)
  obtain rem frag np noff where e: "extractRange ?sp ?so ?ep ?eo d = (rem, frag, np, noff)"
    by (cases "extractRange ?sp ?so ?ep ?eo d")
  from ok e assms(2) have f: "concat (map textContent frag) = rangeText ?sp ?so ?ep ?eo d"
    and t: "textContent d = textBefore ?sp ?so d @ rangeText ?sp ?so ?ep ?eo d @ textAfter ?ep ?eo d"
    and vp: "validPoint np noff rem"
    and tb: "textBefore np noff rem = textBefore ?sp ?so d"
    and ta: "textAfter np noff rem = textAfter ?ep ?eo d"
    and el: "isElement rem"
    by (simp_all add: extractOK_def)
  from insertInto_Element [OF el, of np noff new] obtain d' where
    d': "insertInto np noff new rem = [d']" by blast
  then have ins: "insertNode np noff new rem = Some d'" by (simp add: insertNode_def)
  from insertInto_nodeAt [OF vp, of new] d' obtain q where q: "nodeAt q d' = Some new" by auto
  from insertInto_text [OF vp, of new] d' tb ta
  have t': "textContent d' = textBefore ?sp ?so d @ textContent new @ textAfter ?ep ?eo d" by simp
  have rs: "range_toString r d = rangeText ?sp ?so ?ep ?eo d"
    using assms(1) by (simp add: range_toString_def)
  from e have "extractContents r d = (rem, frag, np, noff)" by (simp add: extractContents_def)
  with ins q f t t' rs show ?thesis by (intro exI [of _ rem] exI [of _ frag] exI [of _ np]
      exI [of _ noff] exI [of _ d'] exI [of _ q]) simp
qed

lemma createHighlight_wraps:
  assumes "validRange r (doc st)" "isElement (doc st)"
  shows "\<exists>d' q. createHighlight r c now st =
        (Inr (highlightId now (Suc (highlightCounter st)), range_toString r (doc st)),
         st\<lparr>doc := d', highlightCounter := Suc (highlightCounter st)\<rparr>) \<and>
      nodeAt q d' = Some (highlightSpan (highlightId now (Suc (highlightCounter st))) c
                            (range_toString r (doc st))) \<and>
      textContent d' =
        textBefore (startContainer r) (startOffset r) (doc st)
        @ range_toString r (doc st)
        @ textAfter (endContainer r) (endOffset r) (doc st) \<and>
      textContent d' = textContent (doc st)"
proof -
  let ?span = "highlightSpan (highlightId now (Suc (highlightCounter st))) c (range_toString r (doc st))"
  from wrap_range [OF assms, of ?span] obtain rem frag np noff d' q where
    w: "extractContents r (doc st) = (rem, frag, np, noff)"
      "insertNode np noff ?span rem = Some d'"
      "nodeAt q d' = Some ?span"
      "textContent (doc st) = textBefore (startContainer r) (startOffset r) (doc st)
         @ range_toString r (doc st) @ textAfter (endContainer r) (endOffset r) (doc st)"
      "textContent d' = textBefore (startContainer r) (startOffset r) (doc st) @ textContent ?span
         @ textAfter (endContainer r) (endOffset r) (doc st)"
    by blast
  have sp: "textContent ?span = range_toString r (doc st)" by (simp add: highlightSpan_def)
  from w(1,2) have "createHighlight r c now st =
        (Inr (highlightId now (Suc (highlightCounter st)), range_toString r (doc st)),
         st\<lparr>doc := d', highlightCounter := Suc (highlightCounter st)\<rparr>)"
    by (simp add: createHighlight_def deleteContents_def Let_def)
  with w(3,4,5) sp show ?thesis by (intro exI [of _ d'] exI [of _ q]) simp
qed

lemma createHighlight_adv_wraps:
  assumes "validRange r (doc st)" "isElement (doc st)"
  shows "\<exists>d' q. createHighlight_adv r c now st =
        (Inr (highlightId now (Suc (highlightCounter st)), range_toString r (doc st)),
         st\<lparr>doc := d', highlightCounter := Suc (highlightCounter st)\<rparr>) \<and>
      nodeAt q d' = Some (advSpan (highlightId now (Suc (highlightCounter st))) c
                            (fst (snd (extractContents r (doc st))))) \<and>
      concat (map textContent (fst (snd (extractContents r (doc st))))) = range_toString r (doc st) \<and>
      textContent d' =
        textBefore (startContainer r) (startOffset r) (doc st)
        @ range_toString r (doc st)
        @ textAfter (endContainer r) (endOffset r) (doc st) \<and>
      textContent d' = textContent (doc st)"
proof -
  obtain rem frag np noff where e: "extractContents r (doc st) = (rem, frag, np, noff)"
    by (cases "extractContents r (doc st)")
  let ?span = "advSpan (highlightId now (Suc (highlightCounter st))) c frag"
  from wrap_range [OF assms, of ?span] e obtain d' q where
    w: "insertNode np noff ?span rem = Some d'"
      "nodeAt q d' = Some ?span"
      "concat (map textContent frag) = range_toString r (doc st)"
      "textContent (doc st) = textBefore (startContainer r) (startOffset r) (doc st)
         @ range_toString r (doc st) @ textAfter (endContainer r) (endOffset r) (doc st)"
      "textContent d' = textBefore (startContainer r) (startOffset r) (doc st) @ textContent ?span
         @ textAfter (endContainer r) (endOffset r) (doc st)"
    by auto
  have sp: "textContent ?span = range_toString r (doc st)" using w(3) by (simp add: advSpan_def)
  from e w(1) have "createHighlight_adv r c now st =
        (Inr (highlightId now (Suc (highlightCounter st)), range_toString r (doc st)),
         st\<lparr>doc := d', highlightCounter := Suc (highlightCounter st)\<rparr>)"
    by (simp add: createHighlight_adv_def Let_def)
  with w(2,3,4,5) sp e show ?thesis by (intro exI [of _ d'] exI [of _ q]) simp
qed

lemma clearAllHighlights_text:
  "textContent (doc (snd (clearAllHighlights st))) = textContent (doc st)"
  by (simp add: clearAllHighlights_def clearHighlightsFromStorage_def Let_def
      textContent_unwrapAll split: sum.splits)

lemma clearAllHighlights_adv_text:
  "textContent (doc (snd (clearAllHighlights_adv st))) = textContent (doc st)"
  by (simp add: clearAllHighlights_adv_def clearHighlightsFromStorage_def
      textContent_unwrapAll split: sum.splits)







subsection \<open>Wrapping and unwrapping\<close>

text \<open>
  Claim C6. For a valid range of a document whose root is an element, in both scripts:
  \<open>createHighlight\<close> returns the new id and the range's string, and the text content
  of the document after it is the text content before it; unwrapping every highlight
  (\<open>clearAllHighlights\<close>, which puts a text node with the element's text content in
  the place of each highlight element) leaves that text content too.
\<close>

theorem wrap_unwrap_keeps_text:
  fixes st :: "highlight state" and st2 :: "highlight_adv state"
  assumes "validRange r d" and "isElement d"
  shows
   "(doc st = d \<longrightarrow>
      (\<exists>hid st'. createHighlight r c now st = (Inr (hid, range_toString r d), st') \<and>
         textContent (doc st') = textContent d \<and>
         textContent (unwrapAll (doc st')) = textContent d \<and>
         textContent (doc (snd (clearAllHighlights st'))) = textContent d))
  \<and> (doc st2 = d \<longrightarrow>
      (\<exists>hid st'. createHighlight_adv r c now st2 = (Inr (hid, range_toString r d), st') \<and>
         textContent (doc st') = textContent d \<and>
         textContent (unwrapAll (doc st')) = textContent d \<and>
         textContent (doc (snd (clearAllHighlights_adv st'))) = textContent d))"
proof (intro conjI impI)
  assume d: "doc st = d"
  with assms have "validRange r (doc st)" "isElement (doc st)" by simp_all
  from createHighlight_wraps [OF this, of c now] d obtain d' where
    c: "createHighlight r c now st =
        (Inr (highlightId now (Suc (highlightCounter st)), range_toString r d),
         st\<lparr>doc := d', highlightCounter := Suc (highlightCounter st)\<rparr>)"
    and t: "textContent d' = textContent d" by auto
  let ?st' = "st\<lparr>doc := d', highlightCounter := Suc (highlightCounter st)\<rparr>"
  have "textContent (doc ?st') = textContent d" using t by simp
  moreover have "textContent (unwrapAll (doc ?st')) = textContent d"
    using t by (simp add: textContent_unwrapAll)
  moreover have "textContent (doc (snd (clearAllHighlights ?st'))) = textContent d"
    using t by (simp add: clearAllHighlights_text)
  ultimately show "\<exists>hid st'. createHighlight r c now st = (Inr (hid, range_toString r d), st') \<and>
         textContent (doc st') = textContent d \<and>
         textContent (unwrapAll (doc st')) = textContent d \<and>
         textContent (doc (snd (clearAllHighlights st'))) = textContent d"
    using c by blast
next
  assume d: "doc st2 = d"
  with assms have "validRange r (doc st2)" "isElement (doc st2)" by simp_all
  from createHighlight_adv_wraps [OF this, of c now] d obtain d' where
    c: "createHighlight_adv r c now st2 =
        (Inr (highlightId now (Suc (highlightCounter st2)), range_toString r d),
         st2\<lparr>doc := d', highlightCounter := Suc (highlightCounter st2)\<rparr>)"
    and t: "textContent d' = textContent d" by auto
  let ?st' = "st2\<lparr>doc := d', highlightCounter := Suc (highlightCounter st2)\<rparr>"
  have "textContent (doc ?st') = textContent d" using t by simp
  moreover have "textContent (unwrapAll (doc ?st')) = textContent d"
    using t by (simp add: textContent_unwrapAll)
  moreover have "textContent (doc (snd (clearAllHighlights_adv ?st'))) = textContent d"
    using t by (simp add: clearAllHighlights_adv_text)
  ultimately show "\<exists>hid st'. createHighlight_adv r c now st2 = (Inr (hid, range_toString r d), st') \<and>
         textContent (doc st') = textContent d \<and>
         textContent (unwrapAll (doc st')) = textContent d \<and>
         textContent (doc (snd (clearAllHighlights_adv st'))) = textContent d"
    using c by blast
qed

theorem wrap_unwrap_keeps_text_witness:
  "validRange crossRange boldBody \<and> isElement boldBody
   \<and> textContent boldBody = ''a boldit c''
   \<and> range_toString crossRange boldBody = ''ldit ''
   \<and> doc (snd (createHighlight crossRange ''#ffff00'' 1000 (pageState boldBody :: highlight state))) =
       Element bodyAttrs
         [TextNode ''a '',
          Element \<lparr>tagName = ''b'', className = [], ident = [], style = []\<rparr> [TextNode ''bo''],
          highlightSpan ''highlight-1000-1'' ''#ffff00'' ''ldit '',
          TextNode ''c'']
   \<and> doc (snd (clearAllHighlights
        (snd (createHighlight crossRange ''#ffff00'' 1000 (pageState boldBody))))) =
       Element bodyAttrs
         [TextNode ''a '',
          Element \<lparr>tagName = ''b'', className = [], ident = [], style = []\<rparr> [TextNode ''bo''],
          TextNode ''ldit '',
          TextNode ''c'']
   \<and> (\<exists>hid st'. createHighlight crossRange ''#ffff00'' 1000 (pageState boldBody :: highlight state) =
         (Inr (hid, range_toString crossRange boldBody), st') \<and>
        textContent (doc (snd (clearAllHighlights st'))) = textContent boldBody)"
proof -
  have v: "validRange crossRange boldBody" by code_simp
  have e: "isElement boldBody" by code_simp
  have t: "textContent boldBody = ''a boldit c''" by code_simp
  have s: "range_toString crossRange boldBody = ''ldit ''" by code_simp
  have c: "doc (snd (createHighlight crossRange ''#ffff00'' 1000 (pageState boldBody :: highlight state))) =
       Element bodyAttrs
         [TextNode ''a '',
          Element \<lparr>tagName = ''b'', className = [], ident = [], style = []\<rparr> [TextNode ''bo''],
          highlightSpan ''highlight-1000-1'' ''#ffff00'' ''ldit '',
          TextNode ''c'']"
    by code_simp
  have u: "doc (snd (clearAllHighlights
        (snd (createHighlight crossRange ''#ffff00'' 1000 (pageState boldBody))))) =
       Element bodyAttrs
         [TextNode ''a '',
          Element \<lparr>tagName = ''b'', className = [], ident = [], style = []\<rparr> [TextNode ''bo''],
          TextNode ''ldit '',
          TextNode ''c'']"
    by code_simp
  have d: "doc (pageState boldBody :: highlight state) = boldBody" by (simp add: pageState_def)
  from wrap_unwrap_keeps_text [OF v e, of "pageState boldBody" "''#ffff00''" 1000 "pageState boldBody"] d
  have r: "\<exists>hid st'. createHighlight crossRange ''#ffff00'' 1000 (pageState boldBody :: highlight state) =
         (Inr (hid, range_toString crossRange boldBody), st') \<and>
        textContent (doc (snd (clearAllHighlights st'))) = textContent boldBody"
    by blast
  from v e t s c u r show ?thesis by blast
qed

subsection \<open>What the span holds\<close>




end

